theory Spec2Isabelle
  imports Main "HOL-Library.AList"
begin

section \<open>Python values shared by the modules\<close>

text \<open>
  Exceptions are values: every function of the model that can raise returns
  \<open>error + 'a\<close>, with \<open>Inl\<close> the exception that leaves the Python function.
\<close>

datatype error = KeyError | ValueError | TypeError | OverflowError
  | JSONDecodeError | ConnectionError

text \<open>The value \<open>r.json()\<close> decodes to. An object is the decoded \<open>dict\<close>, in key order.\<close>

datatype json = JNull | JBool bool | JNum int | JStr string
  | JArr "json list" | JObj "(string \<times> json) list"

text \<open>
  One call \<open>requests.get(url, headers=..., params=...)\<close>. An argument that the
  call site leaves out has the library's default \<open>None\<close>.
\<close>

record request =
  url :: string
  headers :: "(string \<times> string) list option"
  params :: "(string \<times> string) list option"

text \<open>
  The part of a \<open>requests.Response\<close> that the code reads. \<open>resp_headers r name\<close> is
  the lookup \<open>r.headers[name]\<close> (\<open>None\<close> where it raises \<open>KeyError\<close>);
  \<open>resp_json r\<close> is the value of \<open>r.json()\<close> (\<open>None\<close> where the body is no JSON
  document and the call raises).
\<close>

record response =
  status_code :: int
  resp_headers :: "string \<Rightarrow> string option"
  resp_text :: string
  resp_json :: "json option"

text \<open>
  The remote side: the reply to the \<open>n\<close>-th call of \<open>requests.get\<close> (counted from 0)
  as a function of the request sent; \<open>Inl\<close> is an exception of the transport library.
\<close>

type_synonym network = "nat \<Rightarrow> request \<Rightarrow> error + response"

section \<open>speasy/common/http.py\<close>

text \<open>
  \<open>delay\<close> is either the \<open>float\<close> parsed from the header or the integer literal 5.
\<close>

datatype 'f delay = FloatDelay 'f | IntDelay int

text \<open>
  The two library functions \<open>get\<close> calls besides \<open>requests.get\<close>: \<open>float(s)\<close>
  (\<open>None\<close> where it raises \<open>ValueError\<close>) and \<open>time.sleep\<close> on a float
  (\<open>Some e\<close> where it raises \<open>e\<close> instead of suspending: negative, NaN, too large).
\<close>

record 'f pylib =
  float_of :: "string \<Rightarrow> 'f option"
  sleep_float :: "'f \<Rightarrow> error option"

definition sleep :: "'f pylib \<Rightarrow> 'f delay \<Rightarrow> error option" where
  "sleep lib d = (case d of
      IntDelay n \<Rightarrow> (if n < 0 then Some ValueError else None)
    | FloatDelay f \<Rightarrow> sleep_float lib f)"

text \<open>What \<open>get\<close> does to the outside, in order.\<close>

datatype 'f event = Request request | Sleep "'f delay"

text \<open>
  Lines 17 to 20: the \<open>try\<close> block covers the header lookup and the conversion;
  only \<open>ValueError\<close> is caught.
\<close>

definition retry_delay :: "'f pylib \<Rightarrow> response \<Rightarrow> error + 'f delay" where
  "retry_delay lib resp = (case resp_headers resp ''Retry-After'' of
      None \<Rightarrow> Inl KeyError
    | Some s \<Rightarrow> (case float_of lib s of
        None \<Rightarrow> Inr (IntDelay 5)
      | Some f \<Rightarrow> Inr (FloatDelay f)))"

text \<open>
  The \<open>while\<close> loop of lines 16 to 23, entered with the last response; \<open>n\<close> is the
  number of requests sent so far and \<open>tr\<close> the events so far. The loop has no bound:
  \<open>None\<close> is the run that never returns.
\<close>

partial_function (option) retry_loop ::
  "'f pylib \<Rightarrow> network \<Rightarrow> request \<Rightarrow> nat \<Rightarrow> 'f event list \<Rightarrow> response
     \<Rightarrow> ((error + response) \<times> 'f event list) option" where
  "retry_loop lib net rq n tr resp =
     (if status_code resp \<in> set [429, 523] then
        (case retry_delay lib resp of
           Inl e \<Rightarrow> Some (Inl e, tr)
         | Inr d \<Rightarrow>
            (case sleep lib d of
               Some e \<Rightarrow> Some (Inl e, tr)
             | None \<Rightarrow>
                (case net n rq of
                   Inl e \<Rightarrow> Some (Inl e, tr @ [Sleep d, Request rq])
                 | Inr resp' \<Rightarrow>
                     retry_loop lib net rq (Suc n) (tr @ [Sleep d, Request rq]) resp')))
      else Some (Inr resp, tr))"

text \<open>
  \<open>get(url, headers, params)\<close>. \<open>ua\<close> is the module constant \<open>USER_AGENT\<close>. The first
  request (line 15) is sent without \<open>params\<close>; the requests of the loop (line 23) carry
  them.
\<close>

definition get ::
  "'f pylib \<Rightarrow> string \<Rightarrow> network \<Rightarrow> string \<Rightarrow> (string \<times> string) list option
     \<Rightarrow> (string \<times> string) list option \<Rightarrow> ((error + response) \<times> 'f event list) option" where
  "get lib ua net u hdrs prms =
     (let h = AList.update ''User-Agent'' ua (case hdrs of None \<Rightarrow> [] | Some h0 \<Rightarrow> h0);
          first = \<lparr>url = u, headers = Some h, params = None\<rparr>
      in case net 0 first of
           Inl e \<Rightarrow> Some (Inl e, [Request first])
         | Inr resp \<Rightarrow>
             retry_loop lib net \<lparr>url = u, headers = Some h, params = prms\<rparr> 1
               [Request first] resp)"

text \<open>
  A response on which the loop takes another turn: a retry status, a delay that can be
  read and a \<open>sleep\<close> that returns.
\<close>

definition goes_round :: "'f pylib \<Rightarrow> response \<Rightarrow> bool" where
  "goes_round lib r = (status_code r \<in> set [429, 523] \<and>
     (case retry_delay lib r of Inl e \<Rightarrow> False | Inr d \<Rightarrow> sleep lib d = None))"

section \<open>speasy/amda/rest.py\<close>

text \<open>
  The methods of \<open>AmdaRest\<close> call \<open>requests.get(url)\<close> directly. The requests sent so
  far are threaded through as a log; its length numbers the next call.
\<close>

type_synonym log = "request list"

definition requests_get :: "network \<Rightarrow> string \<Rightarrow> log \<Rightarrow> (error + response) \<times> log" where
  "requests_get net u lg =
     (let rq = \<lparr>url = u, headers = None, params = None\<rparr> in (net (length lg) rq, lg @ [rq]))"

text \<open>The request that \<open>requests.get(url)\<close> sends: the address and nothing else.\<close>

definition plain :: "string \<Rightarrow> request" where
  "plain u = \<lparr>url = u, headers = None, params = None\<rparr>"

text \<open>\<open>str.strip()\<close>: the characters below 256 for which \<open>isspace()\<close> holds.\<close>

definition isspace :: "char \<Rightarrow> bool" where
  "isspace c = ((of_char c :: nat) \<in> set [9, 10, 11, 12, 13, 28, 29, 30, 31, 32, 133, 160])"

definition strip :: "string \<Rightarrow> string" where
  "strip s = rev (dropWhile isspace (rev (dropWhile isspace s)))"

text \<open>The property \<open>get_token\<close> (lines 96 to 100).\<close>

definition get_token :: "network \<Rightarrow> string \<Rightarrow> log \<Rightarrow> (error + string) \<times> log" where
  "get_token net server_url lg =
     (case requests_get net (server_url @ ''/php/rest/auth.php?'') lg of
        (Inl e, lg1) \<Rightarrow> (Inl e, lg1)
      | (Inr r, lg1) \<Rightarrow> (Inr (resp_text r), lg1))"

text \<open>
  The first loop of every method: \<open>base_url += key + "=" + str(val) + "&"\<close> over
  \<open>kwargs.items()\<close>. A value of \<open>kwargs\<close> is given as its \<open>str(val)\<close>.
\<close>

definition base_url :: "string \<Rightarrow> string \<Rightarrow> (string \<times> string) list \<Rightarrow> string" where
  "base_url server_url path kwargs =
     foldl (\<lambda>u (key, val). u @ key @ ''='' @ val @ ''&'') (server_url @ path) kwargs"

text \<open>\<open>key in js\<close> and \<open>js[key]\<close> for a string key, on whatever \<open>r.json()\<close> returned.\<close>

definition str_contains :: "string \<Rightarrow> string \<Rightarrow> bool" where
  "str_contains s k = list_ex (\<lambda>i. take (length k) (drop i s) = k) [0..<Suc (length s)]"

definition json_contains :: "json \<Rightarrow> string \<Rightarrow> error + bool" where
  "json_contains js key = (case js of
      JObj kv \<Rightarrow> Inr (key \<in> set (map fst kv))
    | JArr xs \<Rightarrow> Inr (JStr key \<in> set xs)
    | JStr s \<Rightarrow> Inr (str_contains s key)
    | _ \<Rightarrow> Inl TypeError)"

definition json_getitem :: "json \<Rightarrow> string \<Rightarrow> error + json" where
  "json_getitem js key = (case js of
      JObj kv \<Rightarrow> (case map_of kv key of None \<Rightarrow> Inl KeyError | Some v \<Rightarrow> Inr v)
    | _ \<Rightarrow> Inl TypeError)"

text \<open>
  Line 89: \<open>'success' in js and js['success'] is True and 'dataFileURLs' in js\<close>,
  evaluated left to right.
\<close>

definition is_success :: "json \<Rightarrow> error + bool" where
  "is_success js = (case json_contains js ''success'' of
      Inl e \<Rightarrow> Inl e
    | Inr False \<Rightarrow> Inr False
    | Inr True \<Rightarrow> (case json_getitem js ''success'' of
        Inl e \<Rightarrow> Inl e
      | Inr v \<Rightarrow> (if v = JBool True then json_contains js ''dataFileURLs'' else Inr False)))"

text \<open>
  How one turn of a \<open>for\<close> loop ends when it does not raise: with a \<open>return\<close>, or at
  the end of the body, after which the loop goes on.
\<close>

datatype 'a turn = Return 'a | Continue

text \<open>
  \<open>get_parameter\<close> (lines 79 to 94): one attempt is the body of the loop, lines 85
  to 93. The loop runs over the list \<open>[None] * 3\<close>; the result \<open>None\<close> is Python's
  \<open>None\<close> of line 94.
\<close>

definition get_parameter_turn ::
  "network \<Rightarrow> string \<Rightarrow> string \<Rightarrow> log \<Rightarrow> (error + json turn) \<times> log" where
  "get_parameter_turn net server_url burl lg =
     (case get_token net server_url lg of
        (Inl e, lg1) \<Rightarrow> (Inl e, lg1)
      | (Inr tok, lg1) \<Rightarrow>
         (case requests_get net (burl @ ''token='' @ tok) lg1 of
            (Inl e, lg2) \<Rightarrow> (Inl e, lg2)
          | (Inr r, lg2) \<Rightarrow>
             (case resp_json r of
                None \<Rightarrow> (Inl JSONDecodeError, lg2)
              | Some js \<Rightarrow>
                 (case is_success js of
                    Inl e \<Rightarrow> (Inl e, lg2)
                  | Inr True \<Rightarrow>
                     (case json_getitem js ''dataFileURLs'' of
                        Inl e \<Rightarrow> (Inl e, lg2)
                      | Inr v \<Rightarrow> (Inr (Return v), lg2))
                  | Inr False \<Rightarrow> (Inr Continue, lg2)))))"

fun get_parameter_loop ::
  "network \<Rightarrow> string \<Rightarrow> string \<Rightarrow> unit list \<Rightarrow> log \<Rightarrow> (error + json option) \<times> log" where
  "get_parameter_loop net server_url burl [] lg = (Inr None, lg)"
| "get_parameter_loop net server_url burl (_ # todo) lg =
     (case get_parameter_turn net server_url burl lg of
        (Inl e, lg1) \<Rightarrow> (Inl e, lg1)
      | (Inr (Return v), lg1) \<Rightarrow> (Inr (Some v), lg1)
      | (Inr Continue, lg1) \<Rightarrow> get_parameter_loop net server_url burl todo lg1)"

definition get_parameter ::
  "network \<Rightarrow> string \<Rightarrow> (string \<times> string) list \<Rightarrow> log \<Rightarrow> (error + json option) \<times> log" where
  "get_parameter net server_url kwargs lg =
     get_parameter_loop net server_url
       (base_url server_url ''/php/rest/getParameter.php?'' kwargs) (replicate 3 ()) lg"

text \<open>
  \<open>get_timetable\<close> (lines 53 to 63): the body of the loop, lines 59 to 62, ends in
  an unconditional \<open>return\<close>.
\<close>

definition get_timetable_turn ::
  "network \<Rightarrow> string \<Rightarrow> string \<Rightarrow> log \<Rightarrow> (error + string turn) \<times> log" where
  "get_timetable_turn net server_url burl lg =
     (case get_token net server_url lg of
        (Inl e, lg1) \<Rightarrow> (Inl e, lg1)
      | (Inr tok, lg1) \<Rightarrow>
         (case requests_get net (burl @ ''token='' @ tok) lg1 of
            (Inl e, lg2) \<Rightarrow> (Inl e, lg2)
          | (Inr r, lg2) \<Rightarrow> (Inr (Return (strip (resp_text r))), lg2)))"

fun get_timetable_loop ::
  "network \<Rightarrow> string \<Rightarrow> string \<Rightarrow> unit list \<Rightarrow> log \<Rightarrow> (error + string option) \<times> log" where
  "get_timetable_loop net server_url burl [] lg = (Inr None, lg)"
| "get_timetable_loop net server_url burl (_ # todo) lg =
     (case get_timetable_turn net server_url burl lg of
        (Inl e, lg1) \<Rightarrow> (Inl e, lg1)
      | (Inr (Return v), lg1) \<Rightarrow> (Inr (Some v), lg1)
      | (Inr Continue, lg1) \<Rightarrow> get_timetable_loop net server_url burl todo lg1)"

definition get_timetable ::
  "network \<Rightarrow> string \<Rightarrow> (string \<times> string) list \<Rightarrow> log \<Rightarrow> (error + string option) \<times> log" where
  "get_timetable net server_url kwargs lg =
     get_timetable_loop net server_url
       (base_url server_url ''/php/rest/getTimeTable.php?'' kwargs) (replicate 3 ()) lg"

text \<open>
  \<open>get_timetable_list\<close> (lines 10 to 21): the first reply names the document, the
  second request fetches it; the body, lines 16 to 20, again ends in a \<open>return\<close>.
\<close>

definition get_timetable_list_turn ::
  "network \<Rightarrow> string \<Rightarrow> string \<Rightarrow> log \<Rightarrow> (error + string turn) \<times> log" where
  "get_timetable_list_turn net server_url burl lg =
     (case get_token net server_url lg of
        (Inl e, lg1) \<Rightarrow> (Inl e, lg1)
      | (Inr tok, lg1) \<Rightarrow>
         (case requests_get net (burl @ ''token='' @ tok) lg1 of
            (Inl e, lg2) \<Rightarrow> (Inl e, lg2)
          | (Inr r, lg2) \<Rightarrow>
             (case requests_get net (strip (resp_text r)) lg2 of
                (Inl e, lg3) \<Rightarrow> (Inl e, lg3)
              | (Inr r2, lg3) \<Rightarrow> (Inr (Return (strip (resp_text r2))), lg3))))"

fun get_timetable_list_loop ::
  "network \<Rightarrow> string \<Rightarrow> string \<Rightarrow> unit list \<Rightarrow> log \<Rightarrow> (error + string option) \<times> log" where
  "get_timetable_list_loop net server_url burl [] lg = (Inr None, lg)"
| "get_timetable_list_loop net server_url burl (_ # todo) lg =
     (case get_timetable_list_turn net server_url burl lg of
        (Inl e, lg1) \<Rightarrow> (Inl e, lg1)
      | (Inr (Return v), lg1) \<Rightarrow> (Inr (Some v), lg1)
      | (Inr Continue, lg1) \<Rightarrow> get_timetable_list_loop net server_url burl todo lg1)"

definition get_timetable_list ::
  "network \<Rightarrow> string \<Rightarrow> (string \<times> string) list \<Rightarrow> log \<Rightarrow> (error + string option) \<times> log" where
  "get_timetable_list net server_url kwargs lg =
     get_timetable_list_loop net server_url
       (base_url server_url ''/php/rest/getTimeTablesList.php?'' kwargs) (replicate 3 ()) lg"

text \<open>
  The retry contract in the words of the specification: a fixed sequence of up to three
  attempts. An exception of an attempt leaves the operation, the first attempt that
  returns ends it with its result, and after three attempts without one the result is
  \<open>None\<close>.
\<close>

definition up_to_three ::
  "(log \<Rightarrow> (error + 'a turn) \<times> log) \<Rightarrow> log \<Rightarrow> (error + 'a option) \<times> log" where
  "up_to_three attempt lg =
     (case attempt lg of
        (Inl e, l1) \<Rightarrow> (Inl e, l1)
      | (Inr (Return v), l1) \<Rightarrow> (Inr (Some v), l1)
      | (Inr Continue, l1) \<Rightarrow>
         (case attempt l1 of
            (Inl e, l2) \<Rightarrow> (Inl e, l2)
          | (Inr (Return v), l2) \<Rightarrow> (Inr (Some v), l2)
          | (Inr Continue, l2) \<Rightarrow>
             (case attempt l2 of
                (Inl e, l3) \<Rightarrow> (Inl e, l3)
              | (Inr (Return v), l3) \<Rightarrow> (Inr (Some v), l3)
              | (Inr Continue, l3) \<Rightarrow> (Inr None, l3))))"

section \<open>speasy/amda/amda.py: the inventory\<close>

datatype ProductType = UNKNOWN | DATASET | PARAMETER | COMPONENT | TIMETABLE | CATALOG

text \<open>
  A Python \<open>dict\<close> with string keys, in insertion order (the keys are distinct).
  \<open>meta\<close> is the attribute dictionary of one product, \<open>table\<close> one of the ten
  mappings from product id to attributes that \<open>__init__\<close> creates.
\<close>

type_synonym meta = "(string \<times> string) list"
type_synonym table = "(string \<times> meta) list"

record inventory =
  parameter :: table
  observatory :: table
  instrument :: table
  dataset :: table
  mission :: table
  datasetGroup :: table
  component :: table
  dataCenter :: table
  folder :: table
  timeTable :: table

text \<open>\<open>key in d\<close>, \<open>d[key]\<close> and the iteration \<open>for k in d\<close>.\<close>

definition has_key :: "('k \<times> 'v) list \<Rightarrow> 'k \<Rightarrow> bool" where
  "has_key d k = (k \<in> set (map fst d))"

definition getitem :: "('k \<times> 'v) list \<Rightarrow> 'k \<Rightarrow> error + 'v" where
  "getitem d k = (case map_of d k of None \<Rightarrow> Inl KeyError | Some v \<Rightarrow> Inr v)"

definition keys :: "('k \<times> 'v) list \<Rightarrow> 'k list" where
  "keys d = map fst d"

text \<open>Sequencing of two steps of which the first may raise.\<close>

definition and_then :: "error + 'a \<Rightarrow> ('a \<Rightarrow> error + 'b) \<Rightarrow> error + 'b" where
  "and_then r f = (case r of Inl e \<Rightarrow> Inl e | Inr x \<Rightarrow> f x)"

text \<open>\<open>get_product_type\<close> (lines 390 to 412).\<close>

definition get_product_type :: "inventory \<Rightarrow> string \<Rightarrow> ProductType" where
  "get_product_type iv product_id =
     (if has_key (dataset iv) product_id then DATASET
      else if has_key (parameter iv) product_id then PARAMETER
      else if has_key (component iv) product_id then COMPONENT
      else UNKNOWN)"

text \<open>
  \<open>list_parameters\<close> (lines 337 to 347). The comprehension of line 346 reads
  \<open>self.parameter[k]["dataset"]\<close> for every key in turn and raises at the first
  one whose attributes have no \<open>dataset\<close> entry.
\<close>

fun parameters_of :: "table \<Rightarrow> string \<Rightarrow> string list \<Rightarrow> error + string list" where
  "parameters_of tbl dataset_id [] = Inr []"
| "parameters_of tbl dataset_id (k # ks) =
     and_then (getitem tbl k) (\<lambda>m.
     and_then (getitem m ''dataset'') (\<lambda>owner.
     and_then (parameters_of tbl dataset_id ks) (\<lambda>found.
       Inr (if owner = dataset_id then k # found else found))))"

definition list_parameters :: "inventory \<Rightarrow> string option \<Rightarrow> error + string list" where
  "list_parameters iv dataset_id = (case dataset_id of
      Some d \<Rightarrow> parameters_of (parameter iv) d (keys (parameter iv))
    | None \<Rightarrow> Inr (keys (parameter iv)))"

text \<open>\<open>product_version\<close> (lines 181 and 182).\<close>

definition product_version :: "inventory \<Rightarrow> string \<Rightarrow> error + string" where
  "product_version iv parameter_id =
     and_then (getitem (parameter iv) parameter_id) (\<lambda>m.
     and_then (getitem m ''dataset'') (\<lambda>owner.
     and_then (getitem (dataset iv) owner) (\<lambda>ds.
       getitem ds ''lastUpdate'')))"

text \<open>
  The result of \<open>parameter_range\<close>: \<open>DateTimeRange(start, stop)\<close> over whatever
  \<open>datetime.strptime\<close> returns.
\<close>

record 'dt DateTimeRange =
  start_time :: 'dt
  stop_time :: 'dt

text \<open>
  What lies outside the source files at hand and is called by the methods below:
  \<^item> \<open>net\<close>: the remote side of \<open>requests.get\<close>;
  \<^item> \<open>soap_obs_data_tree\<close>: \<open>AmdaSoap.get_obs_data_tree()\<close>, the address of the
    observatory tree;
  \<^item> \<open>xmltodict_parse\<close>: \<open>xmltodict.parse\<close>;
  \<^item> \<open>obs_extrac_all\<close>, \<open>tt_extrac_all\<close>: \<open>ObsDataTreeParser.extrac_all\<close> and
    \<open>TimeTableTree.extrac_all\<close>, which fill the ten mappings of \<open>storage\<close> in place;
    they give the mappings as they leave them and the exception they raise, if any;
  \<^item> \<open>strptime\<close>: \<open>datetime.strptime\<close> with the format \<open>%Y-%m-%dT%H:%M:%SZ\<close>
    (\<open>None\<close> where it raises \<open>ValueError\<close>).
\<close>

record ('tree, 'dt) outside =
  net :: network
  soap_obs_data_tree :: "error + string"
  xmltodict_parse :: "string option \<Rightarrow> error + 'tree"
  obs_extrac_all :: "'tree \<Rightarrow> inventory \<Rightarrow> error option \<times> inventory"
  tt_extrac_all :: "'tree \<Rightarrow> inventory \<Rightarrow> error option \<times> inventory"
  strptime :: "string \<Rightarrow> 'dt option"

text \<open>
  The state the methods of \<open>AMDA\<close> work on: the ten mappings of the object, the
  address its \<open>AmdaRest\<close> was built with, the entries of the module-level \<open>_cache\<close>
  (value and \<open>expire\<close>), and the requests sent.
\<close>

record amda =
  mappings :: inventory
  server_url :: string
  cache :: "string \<Rightarrow> (inventory \<times> int) option"
  sent :: log

text \<open>\<open>get_obs_data_tree\<close> (lines 297 to 301) and \<open>get_timetable_tree\<close> (302 to 305).\<close>

definition get_obs_data_tree :: "('tree, 'dt) outside \<Rightarrow> amda \<Rightarrow> (error + 'tree) \<times> amda" where
  "get_obs_data_tree out a = (case soap_obs_data_tree out of
      Inl e \<Rightarrow> (Inl e, a)
    | Inr u \<Rightarrow> (case requests_get (net out) u (sent a) of
        (Inl e, lg) \<Rightarrow> (Inl e, a\<lparr>sent := lg\<rparr>)
      | (Inr r, lg) \<Rightarrow> (xmltodict_parse out (Some (resp_text r)), a\<lparr>sent := lg\<rparr>)))"

definition get_timetable_tree :: "('tree, 'dt) outside \<Rightarrow> amda \<Rightarrow> (error + 'tree) \<times> amda" where
  "get_timetable_tree out a = (case get_timetable_list (net out) (server_url a) [] (sent a) of
      (Inl e, lg) \<Rightarrow> (Inl e, a\<lparr>sent := lg\<rparr>)
    | (Inr ttt, lg) \<Rightarrow> (xmltodict_parse out ttt, a\<lparr>sent := lg\<rparr>))"

text \<open>
  \<open>update_inventory\<close> (lines 114 to 126). \<open>storage\<close> holds the very dictionaries of
  the object, so what the two parsers write is written to the object.
\<close>

definition update_inventory :: "('tree, 'dt) outside \<Rightarrow> amda \<Rightarrow> (error + unit) \<times> amda" where
  "update_inventory out a = (case get_obs_data_tree out a of
      (Inl e, a1) \<Rightarrow> (Inl e, a1)
    | (Inr tree, a1) \<Rightarrow> (case obs_extrac_all out tree (mappings a1) of
        (Some e, storage) \<Rightarrow> (Inl e, a1\<lparr>mappings := storage\<rparr>)
      | (None, storage) \<Rightarrow> (case get_timetable_tree out (a1\<lparr>mappings := storage\<rparr>) of
          (Inl e, a2) \<Rightarrow> (Inl e, a2)
        | (Inr tttree, a2) \<Rightarrow> (case tt_extrac_all out tttree (mappings a2) of
            (Some e, storage2) \<Rightarrow> (Inl e, a2\<lparr>mappings := storage2\<rparr>)
          | (None, storage2) \<Rightarrow>
              (Inr (), a2\<lparr>mappings := storage2,
                 cache := (cache a2)(''AMDA/inventory'' \<mapsto> (storage2, 7 * 24 * 60 * 60))\<rparr>)))))"

text \<open>
  Lines 331 to 336 of \<open>parameter_range\<close>. The arguments of \<open>DateTimeRange\<close> are
  evaluated left to right.
\<close>

definition dataset_range ::
  "('tree, 'dt) outside \<Rightarrow> inventory \<Rightarrow> string \<Rightarrow> error + 'dt DateTimeRange option" where
  "dataset_range out iv dataset_name =
     (if has_key (dataset iv) dataset_name then
        and_then (getitem (dataset iv) dataset_name) (\<lambda>ds.
        and_then (getitem ds ''dataStart'') (\<lambda>s1.
        and_then (case strptime out s1 of None \<Rightarrow> Inl ValueError | Some t \<Rightarrow> Inr t) (\<lambda>t1.
        and_then (getitem ds ''dataStop'') (\<lambda>s2.
        and_then (case strptime out s2 of None \<Rightarrow> Inl ValueError | Some t \<Rightarrow> Inr t) (\<lambda>t2.
          Inr (Some \<lparr>start_time = t1, stop_time = t2\<rparr>))))))
      else Inr None)"

text \<open>Lines 317 to 336: the part of \<open>parameter_range\<close> after the inventory check.\<close>

definition range_of_product ::
  "('tree, 'dt) outside \<Rightarrow> inventory \<Rightarrow> string \<Rightarrow> error + 'dt DateTimeRange option" where
  "range_of_product out iv parameter_id = (case get_product_type iv parameter_id of
      PARAMETER \<Rightarrow>
        and_then (getitem (parameter iv) parameter_id) (\<lambda>m.
        and_then (getitem m ''dataset'') (dataset_range out iv))
    | DATASET \<Rightarrow> dataset_range out iv parameter_id
    | COMPONENT \<Rightarrow>
        and_then (getitem (component iv) parameter_id) (\<lambda>m.
        and_then (getitem m ''dataset'') (dataset_range out iv))
    | _ \<Rightarrow> Inr None)"

text \<open>\<open>parameter_range\<close> (lines 307 to 336).\<close>

definition parameter_range ::
  "('tree, 'dt) outside \<Rightarrow> amda \<Rightarrow> string \<Rightarrow> (error + 'dt DateTimeRange option) \<times> amda" where
  "parameter_range out a parameter_id =
     (if length (parameter (mappings a)) = 0 then
        (case update_inventory out a of
           (Inl e, a1) \<Rightarrow> (Inl e, a1)
         | (Inr u, a1) \<Rightarrow> (range_of_product out (mappings a1) parameter_id, a1))
      else (range_of_product out (mappings a) parameter_id, a))"

text \<open>
  The \<open>dataset\<close> entry of the attributes stored under a key, \<open>tbl[k]["dataset"]\<close>,
  where both lookups succeed.
\<close>

definition owner_of :: "table \<Rightarrow> string \<Rightarrow> string option" where
  "owner_of tbl k = (case map_of tbl k of None \<Rightarrow> None | Some m \<Rightarrow> map_of m ''dataset'')"

text \<open>
  The owning dataset of a product, in the words of the specification: the \<open>dataset\<close>
  back-reference of a parameter or component, the id itself for a dataset, nothing
  otherwise.
\<close>

definition ownerDataset :: "inventory \<Rightarrow> string \<Rightarrow> string option" where
  "ownerDataset iv product_id = (case get_product_type iv product_id of
      PARAMETER \<Rightarrow> owner_of (parameter iv) product_id
    | COMPONENT \<Rightarrow> owner_of (component iv) product_id
    | DATASET \<Rightarrow> Some product_id
    | _ \<Rightarrow> None)"

section \<open>The fragmented cache in front of \<open>get_data\<close>\<close>

text \<open>
  Times are whole numbers of seconds. A payload is a time series, one sample per
  entry; a fragment is a grid cell \<open>(start, end)\<close>, half open.
\<close>

type_synonym time = int
type_synonym 'a payload = "(time \<times> 'a) list"
type_synonym fragment = "time \<times> time"
type_synonym cache_key = "string \<times> time \<times> time"
type_synonym ('a, 'v) store = "cache_key \<Rightarrow> ('a payload \<times> 'v) option"

text \<open>What one call does to the persistent store and to the retrieval function.\<close>

datatype cache_event = Lookup cache_key | RawFetch time time | Write cache_key

datatype 'a fetched = Data "'a payload" | Empty

text \<open>
  Modelled from the spec: the decorator \<open>Cacheable\<close> of \<open>speasy/cache\<close>, which is
  not among the source files; section 4.2, step 2. The cells of width \<open>w\<close> that cover
  \<open>[start, stop)\<close>, in ascending order; none for an empty interval.
\<close>

definition fragments :: "int \<Rightarrow> time \<Rightarrow> time \<Rightarrow> fragment list" where
  "fragments w start stop =
     (if stop \<le> start then []
      else map (\<lambda>k. (k * w, (k + 1) * w)) [start div w .. (stop - 1) div w])"

text \<open>
  Modelled from the spec: \<open>Cacheable\<close>, section 4.2, step 3, for the fragments in
  turn. An entry is reused when it is present and its version equals the current
  token; otherwise the fragment is fetched and stored under the current token.
\<close>

fun fetch_fragments ::
  "(time \<Rightarrow> time \<Rightarrow> 'a payload) \<Rightarrow> string \<Rightarrow> 'v \<Rightarrow> fragment list \<Rightarrow> ('a, 'v) store
     \<Rightarrow> 'a payload list \<times> ('a, 'v) store \<times> cache_event list" where
  "fetch_fragments rawFetch productId v [] st = ([], st, [])"
| "fetch_fragments rawFetch productId v ((fs, fe) # rest) st =
     (let hit = (case st (productId, fs, fe) of
                   None \<Rightarrow> None
                 | Some (p, v') \<Rightarrow> if v' = v then Some p else None)
      in case hit of
           Some p \<Rightarrow>
             (case fetch_fragments rawFetch productId v rest st of
                (ps, st', evs) \<Rightarrow> (p # ps, st', Lookup (productId, fs, fe) # evs))
         | None \<Rightarrow>
             (let p = rawFetch fs fe in
              case fetch_fragments rawFetch productId v rest
                     (st((productId, fs, fe) \<mapsto> (p, v))) of
                (ps, st', evs) \<Rightarrow>
                  (p # ps, st',
                   Lookup (productId, fs, fe) # RawFetch fs fe # Write (productId, fs, fe) # evs)))"

text \<open>Modelled from the spec: \<open>Cacheable\<close>, section 4.2, step 4, the trimming.\<close>

definition trim :: "time \<Rightarrow> time \<Rightarrow> 'a payload \<Rightarrow> 'a payload" where
  "trim start stop p = filter (\<lambda>(t, x). start \<le> t \<and> t < stop) p"

text \<open>
  Modelled from the spec: \<open>Cacheable\<close>, section 4.2, steps 2 to 5, with the version
  token of step 1 already computed.
\<close>

definition fetch ::
  "(time \<Rightarrow> time \<Rightarrow> 'a payload) \<Rightarrow> string \<Rightarrow> 'v \<Rightarrow> int \<Rightarrow> time \<Rightarrow> time \<Rightarrow> ('a, 'v) store
     \<Rightarrow> 'a fetched \<times> ('a, 'v) store \<times> cache_event list" where
  "fetch rawFetch productId v w start stop st =
     (case fetch_fragments rawFetch productId v (fragments w start stop) st of
        (ps, st', evs) \<Rightarrow>
          ((if list_all (\<lambda>p. p = []) ps then Empty else Data (trim start stop (concat ps))),
           st', evs))"

text \<open>
  \<open>get_data\<close> (lines 184 to 208) under its decorator
  \<open>Cacheable(prefix="amda", version=product_version, fragment_hours=lambda x: 12)\<close>:
  step 1 of section 4.2 calls \<open>product_version\<close>, whose exception leaves
  \<open>get_data\<close>; \<open>dl\<close> is the decorated body, \<open>_dl_parameter\<close> for this product.
\<close>

definition get_data ::
  "(string \<Rightarrow> time \<Rightarrow> time \<Rightarrow> 'a payload) \<Rightarrow> inventory \<Rightarrow> string \<Rightarrow> time \<Rightarrow> time
     \<Rightarrow> ('a, string) store \<Rightarrow> (error + 'a fetched) \<times> ('a, string) store \<times> cache_event list" where
  "get_data dl iv product start stop st = (case product_version iv product of
      Inl e \<Rightarrow> (Inl e, st, [])
    | Inr v \<Rightarrow>
       (case fetch (dl product) product v (12 * 60 * 60) start stop st of
          (r, st', evs) \<Rightarrow> (Inr r, st', evs)))"

text \<open>The raw fetches among the events of a call.\<close>

definition raw_fetches :: "cache_event list \<Rightarrow> fragment list" where
  "raw_fetches evs = concat (map (\<lambda>e. case e of RawFetch s e \<Rightarrow> [(s, e)] | _ \<Rightarrow> []) evs)"

text \<open>The keys of the store that a call looked up or wrote.\<close>

definition touched :: "cache_event list \<Rightarrow> cache_key list" where
  "touched evs = concat (map (\<lambda>e. case e of Lookup k \<Rightarrow> [k] | Write k \<Rightarrow> [k] | _ \<Rightarrow> []) evs)"

text \<open>The key of the persistent store under which a fragment of a product is kept.\<close>

definition key_of :: "string \<Rightarrow> fragment \<Rightarrow> cache_key" where
  "key_of productId f = (productId, fst f, snd f)"

section \<open>Concrete inputs\<close>

text \<open>A library whose floats are whole numbers: \<open>float\<close> reads only the string \<open>2\<close>.\<close>

definition lib0 :: "int pylib" where
  "lib0 = \<lparr>float_of = (\<lambda>s. if s = ''2'' then Some 2 else None),
           sleep_float = (\<lambda>f. if f < 0 then Some ValueError else None)\<rparr>"

text \<open>A rate-limited response with the given \<open>Retry-After\<close> header, and a plain 200.\<close>

definition limited :: "string option \<Rightarrow> response" where
  "limited h = \<lparr>status_code = 429,
     resp_headers = (\<lambda>k. if k = ''Retry-After'' then h else None),
     resp_text = [], resp_json = None\<rparr>"

definition ok200 :: response where
  "ok200 = \<lparr>status_code = 200, resp_headers = (\<lambda>k. None), resp_text = ''ok'',
     resp_json = None\<rparr>"

text \<open>A server that answers the first request with the given response and then 200.\<close>

definition once :: "response \<Rightarrow> network" where
  "once r = (\<lambda>n rq. if n = 0 then Inr r else Inr ok200)"

text \<open>A small inventory: three parameters of two datasets, one parameter whose dataset is
  unknown, one component, one timetable; the second dataset has no validity window.\<close>

definition inv0 :: inventory where
  "inv0 = \<lparr>parameter = [(''imf'', [(''name'', ''imf''), (''dataset'', ''ace-imf-all'')]),
                        (''imf_mag'', [(''dataset'', ''ace-imf-all'')]),
                        (''sw_n'', [(''dataset'', ''ace-swepam-all'')]),
                        (''lost'', [(''dataset'', ''gone'')])],
     observatory = [], instrument = [],
     dataset = [(''ace-imf-all'', [(''dataStart'', ''2000-01-01T00:00:00Z''),
                   (''dataStop'', ''2000-01-02T00:00:00Z''), (''lastUpdate'', ''2021-03-04'')]),
                (''ace-swepam-all'', [(''lastUpdate'', ''2021-03-05'')])],
     mission = [], datasetGroup = [],
     component = [(''imf(0)'', [(''dataset'', ''ace-imf-all''), (''parameter'', ''imf'')])],
     dataCenter = [], folder = [], timeTable = [(''tt_0'', [(''name'', ''shocks'')])]\<rparr>"

text \<open>An inventory in which one id is a key of all three mappings.\<close>

definition inv_clash :: inventory where
  "inv_clash = inv0\<lparr>parameter := (''x'', [(''dataset'', ''ace-imf-all'')]) # parameter inv0,
     dataset := (''x'', []) # dataset inv0,
     component := [(''x'', [(''dataset'', ''ace-imf-all'')]), (''imf'', [])]\<rparr>"

text \<open>
  The outside of the examples: no server answers, timestamps are seconds since 1970
  and \<open>strptime\<close> reads the two strings of \<open>inv0\<close>.
\<close>

definition no_network :: network where
  "no_network = (\<lambda>n rq. Inl ConnectionError)"

definition out0 :: "(unit, int) outside" where
  "out0 = \<lparr>net = no_network, soap_obs_data_tree = Inl ConnectionError,
     xmltodict_parse = (\<lambda>s. Inr ()),
     obs_extrac_all = (\<lambda>t iv. (None, iv)), tt_extrac_all = (\<lambda>t iv. (None, iv)),
     strptime = (\<lambda>s. if s = ''2000-01-01T00:00:00Z'' then Some 946684800
                      else if s = ''2000-01-02T00:00:00Z'' then Some 946771200 else None)\<rparr>"

definition amda0 :: amda where
  "amda0 = \<lparr>mappings = inv0, server_url = ''http://amda.irap.omp.eu'',
     cache = (\<lambda>k. None), sent = []\<rparr>"

text \<open>An object with nothing loaded.\<close>

definition empty_inventory :: inventory where
  "empty_inventory = \<lparr>parameter = [], observatory = [], instrument = [], dataset = [],
     mission = [], datasetGroup = [], component = [], dataCenter = [], folder = [],
     timeTable = []\<rparr>"

definition amda_new :: amda where
  "amda_new = amda0\<lparr>mappings := empty_inventory\<rparr>"

text \<open>An inventory with a parameter record that has no \<open>dataset\<close> entry.\<close>

definition inv_bare :: inventory where
  "inv_bare = empty_inventory\<lparr>
     parameter := [(''imf'', [(''dataset'', ''ace-imf-all'')]), (''bare'', [(''name'', ''bare'')])],
     dataset := [(''ace-imf-all'', [(''lastUpdate'', ''2021-03-04'')])]\<rparr>"

text \<open>An inventory whose only dataset has no \<open>lastUpdate\<close> entry.\<close>

definition inv_unmarked :: inventory where
  "inv_unmarked = empty_inventory\<lparr>
     parameter := [(''imf'', [(''dataset'', ''ace-imf-all'')])],
     dataset := [(''ace-imf-all'', [(''dataStart'', ''2000-01-01T00:00:00Z''),
                   (''dataStop'', ''2000-01-02T00:00:00Z'')])]\<rparr>"

text \<open>An inventory whose dataset has a \<open>dataStart\<close> that is no timestamp and no
  \<open>dataStop\<close>.\<close>

definition inv_badtime :: inventory where
  "inv_badtime = empty_inventory\<lparr>
     parameter := [(''imf'', [(''dataset'', ''ace-imf-all'')])],
     dataset := [(''ace-imf-all'', [(''dataStart'', ''yesterday'')])]\<rparr>"




text \<open>Two retrieval functions that disagree, an empty store, and a store that holds
  two cells of one product under the version \<open>v1\<close>.\<close>

definition raw0 :: "time \<Rightarrow> time \<Rightarrow> int payload" where
  "raw0 s e = [(s, 1), (e - 1, 2)]"

definition raw1 :: "time \<Rightarrow> time \<Rightarrow> int payload" where
  "raw1 s e = [(s, 7)]"

definition no_entries :: "(int, string) store" where
  "no_entries = (\<lambda>k. None)"

definition two_cells :: "(int, string) store" where
  "two_cells = no_entries((''imf'', 0, 12) \<mapsto> ([(3, 30)], ''v1''),
                          (''imf'', 12, 24) \<mapsto> ([(15, 150)], ''v1''))"

text \<open>A server that answers the requests in turn from a list and fails afterwards; the
  replies of the token service, of a refused and of a granted parameter request, and
  a page that is no JSON document.\<close>

definition script :: "(error + response) list \<Rightarrow> network" where
  "script rs = (\<lambda>n rq. if n < length rs then rs ! n else Inl ConnectionError)"

definition token_reply :: "error + response" where
  "token_reply = Inr \<lparr>status_code = 200, resp_headers = (\<lambda>k. None), resp_text = ''T0'',
     resp_json = None\<rparr>"

definition refused_reply :: "error + response" where
  "refused_reply = Inr \<lparr>status_code = 200, resp_headers = (\<lambda>k. None), resp_text = ''refused'',
     resp_json = Some (JObj [(''success'', JBool False)])\<rparr>"

definition page_reply :: "error + response" where
  "page_reply = Inr \<lparr>status_code = 200, resp_headers = (\<lambda>k. None), resp_text = ''<html/>'',
     resp_json = None\<rparr>"

definition files_reply :: "error + response" where
  "files_reply = Inr \<lparr>status_code = 200, resp_headers = (\<lambda>k. None), resp_text = ''files'',
     resp_json = Some (JObj [(''success'', JBool True), (''dataFileURLs'', JStr ''http://amda/f.csv'')])\<rparr>"

section \<open>The transport function\<close>

lemma retry_loop_pass:
  "status_code resp \<notin> set [429, 523] \<Longrightarrow> retry_loop lib nw rq n tr resp = Some (Inr resp, tr)"
  by (subst retry_loop.simps) simp

lemma goes_round_step:
  assumes "goes_round lib resp" and "nw n rq = Inr r"
  shows "\<exists>d. retry_loop lib nw rq n tr resp
           = retry_loop lib nw rq (Suc n) (tr @ [Sleep d, Request rq]) r"
proof -
  from assms(1) obtain d where d: "retry_delay lib resp = Inr d" "sleep lib d = None"
    and st: "status_code resp \<in> set [429, 523]"
    by (auto simp: goes_round_def split: sum.splits)
  have "retry_loop lib nw rq n tr resp
          = retry_loop lib nw rq (Suc n) (tr @ [Sleep d, Request rq]) r"
    using d st assms(2) by (subst retry_loop.simps) simp
  then show ?thesis ..
qed

text \<open>
  With readable delays the loop returns the first response that is neither 429 nor
  523, unchanged, after one sleep and one request per rate-limited response; every
  request of the loop is the one it was entered with.
\<close>

lemma retry_loop_first:
  assumes "\<forall>k<j. \<exists>r. nw (n + k) rq = Inr r \<and> goes_round lib r"
    and "goes_round lib resp"
    and "nw (n + j) rq = Inr r" and "status_code r \<notin> set [429, 523]"
  shows "\<exists>tr'. retry_loop lib nw rq n tr resp = Some (Inr r, tr @ tr') \<and>
           length tr' = 2 * Suc j \<and> (\<forall>q. Request q \<in> set tr' \<longrightarrow> q = rq)"
  using assms
proof (induction j arbitrary: n tr resp)
  case 0
  from 0(3) have r: "nw n rq = Inr r" by simp
  obtain d where
    "retry_loop lib nw rq n tr resp
       = retry_loop lib nw rq (Suc n) (tr @ [Sleep d, Request rq]) r"
    using goes_round_step[of lib resp nw n rq r tr] 0(2) r by blast
  also have "\<dots> = Some (Inr r, tr @ [Sleep d, Request rq])"
    using 0(4) by (rule retry_loop_pass)
  finally show ?case by auto
next
  case (Suc j)
  from Suc.prems(1) obtain r1 where r1: "nw n rq = Inr r1" "goes_round lib r1"
    by force
  obtain d where
    step: "retry_loop lib nw rq n tr resp
             = retry_loop lib nw rq (Suc n) (tr @ [Sleep d, Request rq]) r1"
    using goes_round_step[of lib resp nw n rq r1 tr] Suc.prems(2) r1(1) by blast
  have "\<forall>k<j. \<exists>r. nw (Suc n + k) rq = Inr r \<and> goes_round lib r"
    using Suc.prems(1) by (metis Suc_less_eq add_Suc_shift)
  moreover have "nw (Suc n + j) rq = Inr r" using Suc.prems(3) by simp
  ultimately obtain tr' where tr':
      "retry_loop lib nw rq (Suc n) (tr @ [Sleep d, Request rq]) r1
         = Some (Inr r, (tr @ [Sleep d, Request rq]) @ tr')"
      "length tr' = 2 * Suc j" "\<forall>q. Request q \<in> set tr' \<longrightarrow> q = rq"
    using Suc.IH[OF _ r1(2) _ Suc.prems(4), of "Suc n" "tr @ [Sleep d, Request rq]"] by blast
  show ?case
    by (rule exI[of _ "[Sleep d, Request rq] @ tr'"]) (use step tr' in auto)
qed

text \<open>There is no bound on the turns: against a server that always rate-limits, the
  loop does not return.\<close>

lemma retry_loop_some_imp_stop:
  assumes run: "retry_loop lib nw rq n tr resp = Some y"
    and lim: "\<And>k. \<exists>r. nw k rq = Inr r \<and> goes_round lib r"
    and cur: "goes_round lib resp"
  shows False
proof -
  have "lib' = lib \<and> nw' = nw \<and> rq' = rq \<and> goes_round lib resp' \<longrightarrow> False"
    if "retry_loop lib' nw' rq' n' tr' resp' = Some y'" for lib' nw' rq' n' tr' resp' y'
  proof (rule retry_loop.raw_induct[where P = "\<lambda>lib' nw' rq' n' tr' resp' y'.
       lib' = lib \<and> nw' = nw \<and> rq' = rq \<and> goes_round lib resp' \<longrightarrow> False", OF _ that],
      goal_cases)
    case (1 f lib1 nw1 rq1 n1 tr1 resp1 y1)
    show ?case
    proof (intro impI)
      assume a: "lib1 = lib \<and> nw1 = nw \<and> rq1 = rq \<and> goes_round lib resp1"
      obtain r where r: "nw n1 rq = Inr r" "goes_round lib r" using lim by blast
      from a obtain d where d: "retry_delay lib resp1 = Inr d" "sleep lib d = None"
        and st: "status_code resp1 \<in> set [429, 523]"
        by (auto simp: goes_round_def split: sum.splits)
      from 1(2) a r d st have "f lib nw rq (Suc n1) (tr1 @ [Sleep d, Request rq]) r = Some y1"
        by simp
      from 1(1)[OF this] r show False by simp
    qed
  qed
  with run cur show False by blast
qed

lemma retry_loop_forever:
  assumes "\<And>k. \<exists>r. nw k rq = Inr r \<and> goes_round lib r" and "goes_round lib resp"
  shows "retry_loop lib nw rq n tr resp = None"
proof (cases "retry_loop lib nw rq n tr resp")
  case (Some y)
  from retry_loop_some_imp_stop[OF this assms] show ?thesis ..
qed simp

text \<open>A header that \<open>float\<close> rejects gives the delay 5, and \<open>sleep(5)\<close> returns.\<close>

lemma retry_delay_unparseable:
  assumes "resp_headers resp ''Retry-After'' = Some s" and "float_of lib s = None"
  shows "retry_delay lib resp = Inr (IntDelay 5) \<and> sleep lib (IntDelay 5) = None"
  using assms by (simp add: retry_delay_def sleep_def)

text \<open>
  C1. The claim has every retried request carry the url, headers and params of the
  original request. For \<open>get("http://x", None, {"a": "1"})\<close> against a server that
  answers 429 with \<open>Retry-After: 2\<close> and then 200, the code returns the 200 response
  after sleeping 2, but the original request went out without params and the retried
  one with them.
\<close>

theorem get_first_request_without_params:
  "get lib0 ''UA'' (once (limited (Some ''2''))) ''http://x'' None (Some [(''a'', ''1'')])
     = Some (Inr ok200,
         [Request \<lparr>url = ''http://x'', headers = Some [(''User-Agent'', ''UA'')], params = None\<rparr>,
          Sleep (FloatDelay 2),
          Request \<lparr>url = ''http://x'', headers = Some [(''User-Agent'', ''UA'')],
            params = Some [(''a'', ''1'')]\<rparr>])"
  by (simp add: get_def Let_def retry_loop.simps retry_delay_def sleep_def lib0_def
      limited_def ok200_def once_def)

text \<open>
  C3. The claim has \<open>get\<close> fall back to the delay 5 when a 429 or 523 response has
  no \<open>Retry-After\<close> header. On such a response the code raises \<open>KeyError\<close> out of
  \<open>get\<close>: nothing is slept and nothing is retried.
\<close>

theorem get_missing_retry_after_raises:
  "get lib0 ''UA'' (once (limited None)) ''http://x'' None None
     = Some (Inl KeyError,
         [Request \<lparr>url = ''http://x'', headers = Some [(''User-Agent'', ''UA'')], params = None\<rparr>])"
  by (simp add: get_def Let_def retry_loop.simps retry_delay_def sleep_def lib0_def
      limited_def ok200_def once_def)

section \<open>The inventory\<close>

text \<open>
  C5. \<open>get_product_type\<close> answers DATASET for a key of the dataset mapping, else
  PARAMETER for a key of the parameter mapping, else COMPONENT for a key of the
  component mapping, else UNKNOWN: an id in several mappings gets the first of these,
  and no id makes it raise (its result is a product type for every string).
\<close>

theorem get_product_type_first_match:
  "get_product_type iv product_id =
     (if product_id \<in> set (keys (dataset iv)) then DATASET
      else if product_id \<in> set (keys (parameter iv)) then PARAMETER
      else if product_id \<in> set (keys (component iv)) then COMPONENT
      else UNKNOWN)"
  by (simp add: get_product_type_def has_key_def keys_def)

text \<open>The first match wins for the id \<open>x\<close>, a key of all three mappings.\<close>

theorem get_product_type_first_match_witness:
  "get_product_type inv_clash ''x'' = DATASET \<and> get_product_type inv_clash ''imf'' = PARAMETER
   \<and> get_product_type inv_clash ''imf(0)'' = UNKNOWN \<and> get_product_type inv0 ''imf(0)'' = COMPONENT
   \<and> get_product_type inv0 ''tt_0'' = UNKNOWN"
  using get_product_type_first_match[of inv_clash "''x''"]
    get_product_type_first_match[of inv_clash "''imf''"]
    get_product_type_first_match[of inv_clash "''imf(0)''"]
    get_product_type_first_match[of inv0 "''imf(0)''"]
    get_product_type_first_match[of inv0 "''tt_0''"]
  by (simp add: inv0_def inv_clash_def keys_def)

lemma parameters_of_filter:
  assumes "\<forall>k\<in>set ks. owner_of tbl k \<noteq> None"
  shows "parameters_of tbl d ks = Inr (filter (\<lambda>k. owner_of tbl k = Some d) ks)"
  using assms
proof (induction ks)
  case Nil
  then show ?case by simp
next
  case (Cons k ks)
  then obtain m ow where "map_of tbl k = Some m" "map_of m ''dataset'' = Some ow"
    by (auto simp: owner_of_def split: option.splits)
  with Cons show ?case
    by (simp add: and_then_def getitem_def owner_of_def)
qed

lemma parameters_of_KeyError:
  assumes "\<exists>k\<in>set ks. owner_of tbl k = None"
  shows "parameters_of tbl d ks = Inl KeyError"
  using assms
proof (induction ks)
  case Nil
  then show ?case by simp
next
  case (Cons k ks)
  show ?case
  proof (cases "owner_of tbl k")
    case None
    then show ?thesis by (auto simp: and_then_def getitem_def owner_of_def split: option.splits)
  next
    case (Some ow)
    with Cons have "parameters_of tbl d ks = Inl KeyError" by auto
    with Some show ?thesis
      by (auto simp: and_then_def getitem_def owner_of_def split: option.splits)
  qed
qed

lemma owner_of_key: "owner_of tbl p = Some d \<Longrightarrow> p \<in> set (keys tbl)"
  by (auto simp: owner_of_def keys_def split: option.splits dest: map_of_SomeD intro: rev_image_eqI)

text \<open>
  C8, as stated, at an inventory in which the record of the parameter \<open>bare\<close> has
  no \<open>dataset\<close> entry: the claim has \<open>list_parameters\<close> return the parameters of
  \<open>ace-imf-all\<close>, of which \<open>imf\<close> is one; the code raises \<open>KeyError\<close>.
\<close>

theorem list_parameters_bare_record_raises:
  "list_parameters inv_bare (Some ''ace-imf-all'') = Inl KeyError
   \<and> owner_of (parameter inv_bare) ''imf'' = Some ''ace-imf-all''"
  by (simp add: list_parameters_def keys_def and_then_def getitem_def owner_of_def
      inv_bare_def empty_inventory_def)

text \<open>
  C8, amended. Without a filter \<open>list_parameters\<close> returns the keys of the parameter
  mapping, in every inventory. With a dataset id, in an inventory whose parameter
  records all have a \<open>dataset\<close> entry it returns exactly the keys whose
  back-reference is that id, in the order of the mapping, so every parameter owned
  by the dataset is in the list; in an inventory where some parameter record has no
  \<open>dataset\<close> entry it raises \<open>KeyError\<close>.
\<close>

theorem list_parameters_back_references:
  "list_parameters iv None = Inr (keys (parameter iv))
   \<and> ((\<forall>k\<in>set (keys (parameter iv)). owner_of (parameter iv) k \<noteq> None) \<longrightarrow>
        list_parameters iv (Some d)
          = Inr (filter (\<lambda>k. owner_of (parameter iv) k = Some d) (keys (parameter iv)))
        \<and> (\<forall>p. owner_of (parameter iv) p = Some d
              \<longrightarrow> (\<exists>ps. list_parameters iv (Some d) = Inr ps \<and> p \<in> set ps)))
   \<and> ((\<exists>k\<in>set (keys (parameter iv)). owner_of (parameter iv) k = None) \<longrightarrow>
        list_parameters iv (Some d) = Inl KeyError)"
proof (intro conjI impI)
  show "list_parameters iv None = Inr (keys (parameter iv))"
    by (simp add: list_parameters_def)
next
  assume wf: "\<forall>k\<in>set (keys (parameter iv)). owner_of (parameter iv) k \<noteq> None"
  from parameters_of_filter[OF wf, of d]
  show f: "list_parameters iv (Some d)
          = Inr (filter (\<lambda>k. owner_of (parameter iv) k = Some d) (keys (parameter iv)))"
    by (simp add: list_parameters_def)
  show "\<forall>p. owner_of (parameter iv) p = Some d
              \<longrightarrow> (\<exists>ps. list_parameters iv (Some d) = Inr ps \<and> p \<in> set ps)"
    using f by (auto simp: owner_of_key)
next
  assume "\<exists>k\<in>set (keys (parameter iv)). owner_of (parameter iv) k = None"
  from parameters_of_KeyError[OF this, of d]
  show "list_parameters iv (Some d) = Inl KeyError"
    by (simp add: list_parameters_def)
qed

theorem list_parameters_back_references_witness:
  "list_parameters inv0 None = Inr [''imf'', ''imf_mag'', ''sw_n'', ''lost'']
   \<and> list_parameters inv0 (Some ''ace-imf-all'') = Inr [''imf'', ''imf_mag'']
   \<and> (\<exists>ps. list_parameters inv0 (Some ''ace-imf-all'') = Inr ps \<and> ''imf_mag'' \<in> set ps)
   \<and> list_parameters inv_bare None = Inr [''imf'', ''bare'']
   \<and> list_parameters inv_bare (Some ''nowhere'') = Inl KeyError"
proof -
  have wf: "\<forall>k\<in>set (keys (parameter inv0)). owner_of (parameter inv0) k \<noteq> None"
    by (simp add: inv0_def keys_def owner_of_def)
  have o: "owner_of (parameter inv0) ''imf_mag'' = Some ''ace-imf-all''"
    by (simp add: inv0_def owner_of_def)
  have b: "\<exists>k\<in>set (keys (parameter inv_bare)). owner_of (parameter inv_bare) k = None"
    by (simp add: inv_bare_def empty_inventory_def keys_def owner_of_def)
  from list_parameters_back_references[of inv0 "''ace-imf-all''"] wf o
  have 1: "list_parameters inv0 None = Inr [''imf'', ''imf_mag'', ''sw_n'', ''lost'']
   \<and> list_parameters inv0 (Some ''ace-imf-all'') = Inr [''imf'', ''imf_mag'']
   \<and> (\<exists>ps. list_parameters inv0 (Some ''ace-imf-all'') = Inr ps \<and> ''imf_mag'' \<in> set ps)"
    by (simp add: inv0_def keys_def owner_of_def)
  from list_parameters_back_references[of inv_bare "''nowhere''", THEN conjunct1]
  have 2: "list_parameters inv_bare None = Inr [''imf'', ''bare'']"
    by (simp add: inv_bare_def empty_inventory_def keys_def)
  from list_parameters_back_references[of inv_bare "''nowhere''", THEN conjunct2,
      THEN conjunct2, rule_format, OF b]
  have 3: "list_parameters inv_bare (Some ''nowhere'') = Inl KeyError" .
  from 1 2 3 show ?thesis by blast
qed

lemma getitem_Inr: "(getitem d k = Inr v) = (map_of d k = Some v)"
  by (simp add: getitem_def split: option.splits)

lemma getitem_Inl: "(getitem d k = Inl e) = (map_of d k = None \<and> e = KeyError)"
  by (auto simp add: getitem_def split: option.splits)

lemma has_key_map_of: "has_key d k = (map_of d k \<noteq> None)"
  by (simp add: has_key_def map_of_eq_None_iff)

lemma product_version_Inr:
  "(product_version iv pid = Inr v) =
     (\<exists>owner ds. owner_of (parameter iv) pid = Some owner \<and> map_of (dataset iv) owner = Some ds
        \<and> map_of ds ''lastUpdate'' = Some v)"
  by (auto simp: product_version_def and_then_def getitem_def owner_of_def split: option.splits)

lemma product_version_Inl: "product_version iv pid = Inl e \<Longrightarrow> e = KeyError"
  by (auto simp: product_version_def and_then_def getitem_def split: option.splits)

text \<open>
  C9, as stated, at an inventory whose dataset record has no \<open>lastUpdate\<close> entry:
  \<open>imf\<close> is a key of the parameter mapping and its back-reference is a key of the
  dataset mapping, which is the precondition of the claim; the claim has
  \<open>product_version\<close> return the marker, the code raises \<open>KeyError\<close>.
\<close>

theorem product_version_no_lastUpdate_raises:
  "product_version inv_unmarked ''imf'' = Inl KeyError
   \<and> ''imf'' \<in> set (keys (parameter inv_unmarked))
   \<and> owner_of (parameter inv_unmarked) ''imf'' = Some ''ace-imf-all''
   \<and> ''ace-imf-all'' \<in> set (keys (dataset inv_unmarked))"
  by (simp add: product_version_def and_then_def getitem_def owner_of_def keys_def
      inv_unmarked_def empty_inventory_def)

text \<open>
  C9, amended. \<open>product_version\<close> returns the \<open>lastUpdate\<close> marker of the owning
  dataset when its argument is a key of the parameter mapping whose record has a
  \<open>dataset\<close> entry that is a key of the dataset mapping whose record has a
  \<open>lastUpdate\<close> entry. For every other id it raises \<open>KeyError\<close>, and so does
  \<open>get_data\<close>, before it touches the store; in particular for an id that is no
  key of the parameter mapping, such as a dataset id.
\<close>

theorem product_version_defined_exactly:
  "(\<forall>owner ds v. owner_of (parameter iv) pid = Some owner
        \<and> map_of (dataset iv) owner = Some ds \<and> map_of ds ''lastUpdate'' = Some v
       \<longrightarrow> product_version iv pid = Inr v)
   \<and> (\<not> (\<exists>owner ds v. owner_of (parameter iv) pid = Some owner
        \<and> map_of (dataset iv) owner = Some ds \<and> map_of ds ''lastUpdate'' = Some v)
       \<longrightarrow> product_version iv pid = Inl KeyError
           \<and> get_data dl iv pid start stop st = (Inl KeyError, st, []))
   \<and> (pid \<notin> set (keys (parameter iv))
       \<longrightarrow> product_version iv pid = Inl KeyError
           \<and> get_data dl iv pid start stop st = (Inl KeyError, st, []))"
proof (intro conjI allI impI)
  fix owner ds v
  assume "owner_of (parameter iv) pid = Some owner
        \<and> map_of (dataset iv) owner = Some ds \<and> map_of ds ''lastUpdate'' = Some v"
  then show "product_version iv pid = Inr v"
    by (subst product_version_Inr) blast
next
  assume a: "\<not> (\<exists>owner ds v. owner_of (parameter iv) pid = Some owner
        \<and> map_of (dataset iv) owner = Some ds \<and> map_of ds ''lastUpdate'' = Some v)"
  show pv: "product_version iv pid = Inl KeyError"
  proof (cases "product_version iv pid")
    case (Inl e)
    with product_version_Inl[OF Inl] show ?thesis by simp
  next
    case (Inr v)
    with a product_version_Inr[of iv pid v] show ?thesis by blast
  qed
  then show "get_data dl iv pid start stop st = (Inl KeyError, st, [])"
    by (simp add: get_data_def)
next
  assume "pid \<notin> set (keys (parameter iv))"
  then have "map_of (parameter iv) pid = None"
    by (simp add: keys_def map_of_eq_None_iff)
  then show pv: "product_version iv pid = Inl KeyError"
    by (simp add: product_version_def and_then_def getitem_def)
  then show "get_data dl iv pid start stop st = (Inl KeyError, st, [])"
    by (simp add: get_data_def)
qed

theorem product_version_defined_exactly_witness:
  "product_version inv0 ''imf'' = Inr ''2021-03-04''
   \<and> product_version inv0 ''lost'' = Inl KeyError
   \<and> get_data (\<lambda>p s e. [(s, 0::int)]) inv0 ''lost'' 0 10 (\<lambda>k. None) = (Inl KeyError, (\<lambda>k. None), [])
   \<and> product_version inv0 ''ace-imf-all'' = Inl KeyError
   \<and> get_data (\<lambda>p s e. [(s, 0::int)]) inv0 ''ace-imf-all'' 0 10 (\<lambda>k. None) = (Inl KeyError, (\<lambda>k. None), [])"
proof -
  have 1: "owner_of (parameter inv0) ''imf'' = Some ''ace-imf-all'' \<and>
     map_of (dataset inv0) ''ace-imf-all'' = Some [(''dataStart'', ''2000-01-01T00:00:00Z''),
                   (''dataStop'', ''2000-01-02T00:00:00Z''), (''lastUpdate'', ''2021-03-04'')]
     \<and> map_of [(''dataStart'', ''2000-01-01T00:00:00Z''),
                   (''dataStop'', ''2000-01-02T00:00:00Z''), (''lastUpdate'', ''2021-03-04'')]
          ''lastUpdate'' = Some ''2021-03-04''"
    by (simp add: inv0_def owner_of_def)
  have 2: "\<not> (\<exists>owner ds v. owner_of (parameter inv0) ''lost'' = Some owner
        \<and> map_of (dataset inv0) owner = Some ds \<and> map_of ds ''lastUpdate'' = Some v)"
    by (simp add: inv0_def owner_of_def)
  have 3: "''ace-imf-all'' \<notin> set (keys (parameter inv0))"
    by (simp add: inv0_def keys_def)
  note pv = product_version_defined_exactly
  from pv[of inv0 "''imf''" "\<lambda>p s e. [(s, 0::int)]" 0 10 "\<lambda>k. None"] 1
  have "product_version inv0 ''imf'' = Inr ''2021-03-04''"
    by blast
  moreover from pv[of inv0 "''lost''" "\<lambda>p s e. [(s, 0::int)]" 0 10 "\<lambda>k. None"] 2
  have "product_version inv0 ''lost'' = Inl KeyError"
    "get_data (\<lambda>p s e. [(s, 0::int)]) inv0 ''lost'' 0 10 (\<lambda>k. None) = (Inl KeyError, (\<lambda>k. None), [])"
    by blast+
  moreover from pv[of inv0 "''ace-imf-all''" "\<lambda>p s e. [(s, 0::int)]" 0 10 "\<lambda>k. None"] 3
  have "product_version inv0 ''ace-imf-all'' = Inl KeyError"
    "get_data (\<lambda>p s e. [(s, 0::int)]) inv0 ''ace-imf-all'' 0 10 (\<lambda>k. None) = (Inl KeyError, (\<lambda>k. None), [])"
    by blast+
  ultimately show ?thesis by blast
qed

lemma dataset_range_absent:
  "map_of (dataset iv) dn = None \<Longrightarrow> dataset_range out iv dn = Inr None"
  by (simp add: dataset_range_def has_key_map_of)

lemma dataset_range_window:
  assumes "map_of (dataset iv) dn = Some ds"
    and "map_of ds ''dataStart'' = Some s1" and "strptime out s1 = Some t1"
    and "map_of ds ''dataStop'' = Some s2" and "strptime out s2 = Some t2"
  shows "dataset_range out iv dn = Inr (Some \<lparr>start_time = t1, stop_time = t2\<rparr>)"
  using assms by (simp add: dataset_range_def has_key_map_of and_then_def getitem_def)

lemma dataset_range_no_window:
  assumes "map_of (dataset iv) dn = Some ds"
    and "map_of ds ''dataStart'' = None \<or>
         (\<exists>s1 t1. map_of ds ''dataStart'' = Some s1 \<and> strptime out s1 = Some t1
            \<and> map_of ds ''dataStop'' = None)"
  shows "dataset_range out iv dn = Inl KeyError"
  using assms by (auto simp add: dataset_range_def has_key_map_of and_then_def getitem_def)

lemma range_of_product_owner:
  "ownerDataset iv pid = Some dn \<Longrightarrow> range_of_product out iv pid = dataset_range out iv dn"
  by (auto simp: ownerDataset_def range_of_product_def owner_of_def and_then_def getitem_def
      split: ProductType.splits option.splits)

lemma range_of_product_unknown:
  "get_product_type iv pid = UNKNOWN \<Longrightarrow> range_of_product out iv pid = Inr None"
  by (simp add: range_of_product_def)

lemma parameter_range_loaded:
  "parameter (mappings a) \<noteq> [] \<Longrightarrow>
     parameter_range out a pid = (range_of_product out (mappings a) pid, a)"
  by (simp add: parameter_range_def)

text \<open>
  C6, as stated, at a dataset without a recorded window: \<open>ace-swepam-all\<close> is a key
  of the dataset mapping and has neither \<open>dataStart\<close> nor \<open>dataStop\<close>. The claim
  has \<open>parameter_range\<close> return \<open>None\<close> without raising; the code raises
  \<open>KeyError\<close>.
\<close>

theorem parameter_range_no_window_raises:
  "parameter_range out0 amda0 ''ace-swepam-all'' = (Inl KeyError, amda0)"
  by (simp add: parameter_range_def range_of_product_def get_product_type_def has_key_def
      dataset_range_def and_then_def getitem_def amda0_def inv0_def)

lemma dataset_range_cases:
  assumes "map_of (dataset iv) dn = Some ds"
  shows "(map_of ds ''dataStart'' = None \<longrightarrow> dataset_range out iv dn = Inl KeyError)
    \<and> (\<forall>s1. map_of ds ''dataStart'' = Some s1 \<and> strptime out s1 = None
          \<longrightarrow> dataset_range out iv dn = Inl ValueError)
    \<and> (\<forall>s1 t1. map_of ds ''dataStart'' = Some s1 \<and> strptime out s1 = Some t1
          \<and> map_of ds ''dataStop'' = None
          \<longrightarrow> dataset_range out iv dn = Inl KeyError)
    \<and> (\<forall>s1 t1 s2. map_of ds ''dataStart'' = Some s1 \<and> strptime out s1 = Some t1
          \<and> map_of ds ''dataStop'' = Some s2 \<and> strptime out s2 = None
          \<longrightarrow> dataset_range out iv dn = Inl ValueError)
    \<and> (\<forall>s1 t1 s2 t2. map_of ds ''dataStart'' = Some s1 \<and> strptime out s1 = Some t1
          \<and> map_of ds ''dataStop'' = Some s2 \<and> strptime out s2 = Some t2
          \<longrightarrow> dataset_range out iv dn = Inr (Some \<lparr>start_time = t1, stop_time = t2\<rparr>))"
  using assms by (simp add: dataset_range_def has_key_map_of and_then_def getitem_def)

lemma range_of_product_no_owner:
  assumes "get_product_type iv pid \<noteq> UNKNOWN" and "ownerDataset iv pid = None"
  shows "range_of_product out iv pid = Inl KeyError"
proof (cases "get_product_type iv pid")
  case PARAMETER
  with assms(2) have "owner_of (parameter iv) pid = None" by (simp add: ownerDataset_def)
  with PARAMETER show ?thesis
    by (auto simp: range_of_product_def owner_of_def and_then_def getitem_def split: option.splits)
next
  case COMPONENT
  with assms(2) have "owner_of (component iv) pid = None" by (simp add: ownerDataset_def)
  with COMPONENT show ?thesis
    by (auto simp: range_of_product_def owner_of_def and_then_def getitem_def split: option.splits)
next
  case DATASET
  with assms(2) show ?thesis by (simp add: ownerDataset_def)
next
  case UNKNOWN
  with assms(1) show ?thesis by simp
next
  case TIMETABLE
  then show ?thesis by (simp add: get_product_type_def split: if_splits)
next
  case CATALOG
  then show ?thesis by (simp add: get_product_type_def split: if_splits)
qed

lemma parameter_range_resolved:
  assumes "parameter (mappings a) \<noteq> [] \<and> a1 = a
     \<or> parameter (mappings a) = [] \<and> update_inventory out a = (Inr u, a1)"
  shows "parameter_range out a pid = (range_of_product out (mappings a1) pid, a1)"
  using assms by (auto simp: parameter_range_def)

lemma parameter_range_update_raises:
  assumes "parameter (mappings a) = []" and "update_inventory out a = (Inl e, a1)"
  shows "parameter_range out a pid = (Inl e, a1)"
  using assms by (simp add: parameter_range_def)

text \<open>
  C6, amended. Where the parameter mapping is empty \<open>parameter_range\<close> runs
  \<open>update_inventory\<close> first, and an exception of that leaves the call. On the
  mappings it then holds: an id that resolves to no product gives \<open>None\<close>; a
  parameter or component whose record has no \<open>dataset\<close> entry raises \<open>KeyError\<close>;
  an owning dataset that is no key of the dataset mapping gives \<open>None\<close>; an owning
  dataset whose record has no \<open>dataStart\<close>, or a \<open>dataStart\<close> that \<open>strptime\<close> reads
  and no \<open>dataStop\<close>, raises \<open>KeyError\<close>; a \<open>dataStart\<close>, or after a readable
  \<open>dataStart\<close> a \<open>dataStop\<close>, that \<open>strptime\<close> rejects raises \<open>ValueError\<close>; and
  two readable entries give the two timestamps.
\<close>

theorem parameter_range_cases:
  "(\<forall>e a1. parameter (mappings a) = [] \<and> update_inventory out a = (Inl e, a1)
       \<longrightarrow> parameter_range out a pid = (Inl e, a1))
   \<and> (\<forall>a1. (parameter (mappings a) \<noteq> [] \<and> a1 = a
              \<or> parameter (mappings a) = [] \<and> update_inventory out a = (Inr (), a1)) \<longrightarrow>
        (get_product_type (mappings a1) pid = UNKNOWN
            \<longrightarrow> parameter_range out a pid = (Inr None, a1))
      \<and> (get_product_type (mappings a1) pid \<noteq> UNKNOWN \<and> ownerDataset (mappings a1) pid = None
            \<longrightarrow> parameter_range out a pid = (Inl KeyError, a1))
      \<and> (\<forall>dn. ownerDataset (mappings a1) pid = Some dn
              \<and> dn \<notin> set (keys (dataset (mappings a1)))
            \<longrightarrow> parameter_range out a pid = (Inr None, a1))
      \<and> (\<forall>dn ds. ownerDataset (mappings a1) pid = Some dn
              \<and> map_of (dataset (mappings a1)) dn = Some ds \<longrightarrow>
            (map_of ds ''dataStart'' = None
               \<longrightarrow> parameter_range out a pid = (Inl KeyError, a1))
          \<and> (\<forall>s1. map_of ds ''dataStart'' = Some s1 \<and> strptime out s1 = None
               \<longrightarrow> parameter_range out a pid = (Inl ValueError, a1))
          \<and> (\<forall>s1 t1. map_of ds ''dataStart'' = Some s1 \<and> strptime out s1 = Some t1
                 \<and> map_of ds ''dataStop'' = None
               \<longrightarrow> parameter_range out a pid = (Inl KeyError, a1))
          \<and> (\<forall>s1 t1 s2. map_of ds ''dataStart'' = Some s1 \<and> strptime out s1 = Some t1
                 \<and> map_of ds ''dataStop'' = Some s2 \<and> strptime out s2 = None
               \<longrightarrow> parameter_range out a pid = (Inl ValueError, a1))
          \<and> (\<forall>s1 t1 s2 t2. map_of ds ''dataStart'' = Some s1 \<and> strptime out s1 = Some t1
                 \<and> map_of ds ''dataStop'' = Some s2 \<and> strptime out s2 = Some t2
               \<longrightarrow> parameter_range out a pid
                     = (Inr (Some \<lparr>start_time = t1, stop_time = t2\<rparr>), a1))))"
proof (intro conjI allI impI)
  fix e a1
  assume "parameter (mappings a) = [] \<and> update_inventory out a = (Inl e, a1)"
  then show "parameter_range out a pid = (Inl e, a1)"
    by (simp add: parameter_range_update_raises)
next
  fix a1
  assume r: "parameter (mappings a) \<noteq> [] \<and> a1 = a
              \<or> parameter (mappings a) = [] \<and> update_inventory out a = (Inr (), a1)"
  note pr = parameter_range_resolved[OF r, of pid]
  {
    assume "get_product_type (mappings a1) pid = UNKNOWN"
    then show "parameter_range out a pid = (Inr None, a1)"
      by (simp add: pr range_of_product_unknown)
  next
    assume "get_product_type (mappings a1) pid \<noteq> UNKNOWN \<and> ownerDataset (mappings a1) pid = None"
    then show "parameter_range out a pid = (Inl KeyError, a1)"
      by (simp add: pr range_of_product_no_owner)
  next
    fix dn
    assume "ownerDataset (mappings a1) pid = Some dn \<and> dn \<notin> set (keys (dataset (mappings a1)))"
    then have "ownerDataset (mappings a1) pid = Some dn" "map_of (dataset (mappings a1)) dn = None"
      by (simp_all add: keys_def map_of_eq_None_iff)
    then show "parameter_range out a pid = (Inr None, a1)"
      by (simp add: pr range_of_product_owner dataset_range_absent)
  next
    fix dn ds
    assume h: "ownerDataset (mappings a1) pid = Some dn
              \<and> map_of (dataset (mappings a1)) dn = Some ds"
    then have eq: "parameter_range out a pid = (dataset_range out (mappings a1) dn, a1)"
      by (simp add: pr range_of_product_owner)
    from h have d: "map_of (dataset (mappings a1)) dn = Some ds" by simp
    note c = dataset_range_cases[OF d, of out]
    {
      assume "map_of ds ''dataStart'' = None"
      with c show "parameter_range out a pid = (Inl KeyError, a1)" unfolding eq by blast
    next
      fix s1
      assume "map_of ds ''dataStart'' = Some s1 \<and> strptime out s1 = None"
      with c show "parameter_range out a pid = (Inl ValueError, a1)" unfolding eq by blast
    next
      fix s1 t1
      assume "map_of ds ''dataStart'' = Some s1 \<and> strptime out s1 = Some t1
                 \<and> map_of ds ''dataStop'' = None"
      with c show "parameter_range out a pid = (Inl KeyError, a1)" unfolding eq by blast
    next
      fix s1 t1 s2
      assume "map_of ds ''dataStart'' = Some s1 \<and> strptime out s1 = Some t1
                 \<and> map_of ds ''dataStop'' = Some s2 \<and> strptime out s2 = None"
      with c show "parameter_range out a pid = (Inl ValueError, a1)" unfolding eq by blast
    next
      fix s1 t1 s2 t2
      assume "map_of ds ''dataStart'' = Some s1 \<and> strptime out s1 = Some t1
                 \<and> map_of ds ''dataStop'' = Some s2 \<and> strptime out s2 = Some t2"
      with c show "parameter_range out a pid
                     = (Inr (Some \<lparr>start_time = t1, stop_time = t2\<rparr>), a1)"
        unfolding eq by blast
    }
  }
qed

theorem parameter_range_cases_witness:
  "parameter_range out0 amda0 ''imf''
     = (Inr (Some \<lparr>start_time = 946684800, stop_time = 946771200\<rparr>), amda0)
   \<and> parameter_range out0 amda0 ''imf(0)''
     = (Inr (Some \<lparr>start_time = 946684800, stop_time = 946771200\<rparr>), amda0)
   \<and> parameter_range out0 amda0 ''ace-imf-all''
     = (Inr (Some \<lparr>start_time = 946684800, stop_time = 946771200\<rparr>), amda0)
   \<and> parameter_range out0 amda0 ''tt_0'' = (Inr None, amda0)
   \<and> parameter_range out0 amda0 ''lost'' = (Inr None, amda0)
   \<and> parameter_range out0 amda0 ''sw_n'' = (Inl KeyError, amda0)
   \<and> parameter_range out0 (amda0\<lparr>mappings := inv_bare\<rparr>) ''bare''
     = (Inl KeyError, amda0\<lparr>mappings := inv_bare\<rparr>)
   \<and> parameter_range out0 (amda0\<lparr>mappings := inv_badtime\<rparr>) ''imf''
     = (Inl ValueError, amda0\<lparr>mappings := inv_badtime\<rparr>)
   \<and> parameter_range out0 amda_new ''imf'' = (Inl ConnectionError, amda_new)"
proof -
  note ev = ownerDataset_def get_product_type_def has_key_def owner_of_def keys_def
  have ne: "parameter (mappings amda0) \<noteq> [] \<and> amda0 = amda0"
    by (simp add: amda0_def inv0_def)
  note c = parameter_range_cases[where a = amda0 and out = out0, THEN conjunct2,
      THEN spec[where x = amda0], THEN mp, OF disjI1, OF ne]
  note unknown = c[THEN conjunct1, THEN mp]
  note absent = c[THEN conjunct2, THEN conjunct2, THEN conjunct1, THEN spec, THEN mp]
  note present = c[THEN conjunct2, THEN conjunct2, THEN conjunct2, THEN spec, THEN spec, THEN mp]
  have imf: "ownerDataset (mappings amda0) ''imf'' = Some ''ace-imf-all''
      \<and> map_of (dataset (mappings amda0)) ''ace-imf-all''
       = Some [(''dataStart'', ''2000-01-01T00:00:00Z''),
               (''dataStop'', ''2000-01-02T00:00:00Z''), (''lastUpdate'', ''2021-03-04'')]"
    and imf0: "ownerDataset (mappings amda0) ''imf(0)'' = Some ''ace-imf-all''
      \<and> map_of (dataset (mappings amda0)) ''ace-imf-all''
       = Some [(''dataStart'', ''2000-01-01T00:00:00Z''),
               (''dataStop'', ''2000-01-02T00:00:00Z''), (''lastUpdate'', ''2021-03-04'')]"
    and ace: "ownerDataset (mappings amda0) ''ace-imf-all'' = Some ''ace-imf-all''
      \<and> map_of (dataset (mappings amda0)) ''ace-imf-all''
       = Some [(''dataStart'', ''2000-01-01T00:00:00Z''),
               (''dataStop'', ''2000-01-02T00:00:00Z''), (''lastUpdate'', ''2021-03-04'')]"
    and swn: "ownerDataset (mappings amda0) ''sw_n'' = Some ''ace-swepam-all''
      \<and> map_of (dataset (mappings amda0)) ''ace-swepam-all'' = Some [(''lastUpdate'', ''2021-03-05'')]"
    and lost: "ownerDataset (mappings amda0) ''lost'' = Some ''gone''
      \<and> ''gone'' \<notin> set (keys (dataset (mappings amda0)))"
    and tt: "get_product_type (mappings amda0) ''tt_0'' = UNKNOWN"
    by (simp_all add: ev amda0_def inv0_def)
  have win: "map_of [(''dataStart'', ''2000-01-01T00:00:00Z''),
               (''dataStop'', ''2000-01-02T00:00:00Z''), (''lastUpdate'', ''2021-03-04'')] ''dataStart''
            = Some ''2000-01-01T00:00:00Z''
      \<and> strptime out0 ''2000-01-01T00:00:00Z'' = Some 946684800
      \<and> map_of [(''dataStart'', ''2000-01-01T00:00:00Z''),
               (''dataStop'', ''2000-01-02T00:00:00Z''), (''lastUpdate'', ''2021-03-04'')] ''dataStop''
            = Some ''2000-01-02T00:00:00Z''
      \<and> strptime out0 ''2000-01-02T00:00:00Z'' = Some 946771200"
    by (simp add: out0_def)
  have 1: "parameter_range out0 amda0 ''imf''
     = (Inr (Some \<lparr>start_time = 946684800, stop_time = 946771200\<rparr>), amda0)"
    by (rule present[OF imf, THEN conjunct2, THEN conjunct2, THEN conjunct2, THEN conjunct2,
        THEN spec, THEN spec, THEN spec, THEN spec, THEN mp, OF win])
  have 2: "parameter_range out0 amda0 ''imf(0)''
     = (Inr (Some \<lparr>start_time = 946684800, stop_time = 946771200\<rparr>), amda0)"
    by (rule present[OF imf0, THEN conjunct2, THEN conjunct2, THEN conjunct2, THEN conjunct2,
        THEN spec, THEN spec, THEN spec, THEN spec, THEN mp, OF win])
  have 3: "parameter_range out0 amda0 ''ace-imf-all''
     = (Inr (Some \<lparr>start_time = 946684800, stop_time = 946771200\<rparr>), amda0)"
    by (rule present[OF ace, THEN conjunct2, THEN conjunct2, THEN conjunct2, THEN conjunct2,
        THEN spec, THEN spec, THEN spec, THEN spec, THEN mp, OF win])
  have 4: "parameter_range out0 amda0 ''tt_0'' = (Inr None, amda0)"
    by (rule unknown[OF tt])
  have 5: "parameter_range out0 amda0 ''lost'' = (Inr None, amda0)"
    by (rule absent[OF lost])
  have "map_of [(''lastUpdate'', ''2021-03-05'')] ''dataStart'' = None" by simp
  from present[OF swn, THEN conjunct1, THEN mp, OF this]
  have 6: "parameter_range out0 amda0 ''sw_n'' = (Inl KeyError, amda0)" .
  let ?b = "amda0\<lparr>mappings := inv_bare\<rparr>"
  have neb: "parameter (mappings ?b) \<noteq> [] \<and> ?b = ?b"
    by (simp add: inv_bare_def empty_inventory_def)
  have ob: "get_product_type (mappings ?b) ''bare'' \<noteq> UNKNOWN \<and> ownerDataset (mappings ?b) ''bare'' = None"
    by (simp add: ev inv_bare_def empty_inventory_def)
  from parameter_range_cases[where a = ?b and out = out0, THEN conjunct2,
      THEN spec[where x = ?b], THEN mp, OF disjI1, OF neb, THEN conjunct2, THEN conjunct1,
      THEN mp, OF ob]
  have 7: "parameter_range out0 ?b ''bare'' = (Inl KeyError, ?b)" .
  let ?c = "amda0\<lparr>mappings := inv_badtime\<rparr>"
  have nec: "parameter (mappings ?c) \<noteq> [] \<and> ?c = ?c"
    by (simp add: inv_badtime_def empty_inventory_def)
  have oc: "ownerDataset (mappings ?c) ''imf'' = Some ''ace-imf-all''
      \<and> map_of (dataset (mappings ?c)) ''ace-imf-all'' = Some [(''dataStart'', ''yesterday'')]"
    and bad: "map_of [(''dataStart'', ''yesterday'')] ''dataStart'' = Some ''yesterday'' \<and>
       strptime out0 ''yesterday'' = None"
    by (simp_all add: ev inv_badtime_def empty_inventory_def out0_def)
  from parameter_range_cases[where a = ?c and out = out0, THEN conjunct2,
      THEN spec[where x = ?c], THEN mp, OF disjI1, OF nec, THEN conjunct2, THEN conjunct2,
      THEN conjunct2, THEN spec, THEN spec, THEN mp, OF oc, THEN conjunct2, THEN conjunct1,
      THEN spec, THEN mp, OF bad]
  have 8: "parameter_range out0 ?c ''imf'' = (Inl ValueError, ?c)" .
  have u: "parameter (mappings amda_new) = []
     \<and> update_inventory out0 amda_new = (Inl ConnectionError, amda_new)"
    by (simp add: update_inventory_def get_obs_data_tree_def out0_def amda_new_def
        empty_inventory_def)
  from parameter_range_cases[where a = amda_new and out = out0, THEN conjunct1,
      THEN spec, THEN spec, THEN mp, OF u]
  have 9: "parameter_range out0 amda_new ''imf'' = (Inl ConnectionError, amda_new)" .
  from 1 2 3 4 5 6 7 8 9 show ?thesis by (intro conjI)
qed

lemma requests_get_plain: "requests_get nw u lg = (nw (length lg) (plain u), lg @ [plain u])"
  by (simp add: requests_get_def plain_def Let_def)





section \<open>The fragmented cache\<close>

lemma fetch_fragments_hit:
  assumes "st (pid, s, e) = Some (q, v)"
    and "fetch_fragments raw pid v fs st = (ps, st', evs)"
  shows "fetch_fragments raw pid v ((s, e) # fs) st = (q # ps, st', Lookup (pid, s, e) # evs)"
  using assms by simp

lemma fetch_fragments_miss:
  assumes "\<forall>q. st (pid, s, e) \<noteq> Some (q, v)"
    and "st2 = st((pid, s, e) \<mapsto> (raw s e, v))"
    and "fetch_fragments raw pid v fs st2 = (ps, st', evs)"
  shows "fetch_fragments raw pid v ((s, e) # fs) st =
          (raw s e # ps, st',
           Lookup (pid, s, e) # RawFetch s e # Write (pid, s, e) # evs)"
proof -
  from assms(1) have "(case st (pid, s, e) of None \<Rightarrow> None
        | Some (p, v') \<Rightarrow> if v' = v then Some p else None) = None"
    by (auto split: option.splits)
  then show ?thesis using assms(2,3) by (simp add: Let_def)
qed

declare fetch_fragments.simps(2) [simp del]

text \<open>One step of the loop, whichever branch is taken.\<close>

lemma fetch_fragments_step:
  obtains (hit) q ps st' evs where "st (pid, s, e) = Some (q, v)"
      "fetch_fragments raw pid v fs st = (ps, st', evs)"
      "fetch_fragments raw pid v ((s, e) # fs) st = (q # ps, st', Lookup (pid, s, e) # evs)"
  | (miss) st2 ps st' evs where "\<forall>q. st (pid, s, e) \<noteq> Some (q, v)"
      "st2 = st((pid, s, e) \<mapsto> (raw s e, v))"
      "fetch_fragments raw pid v fs st2 = (ps, st', evs)"
      "fetch_fragments raw pid v ((s, e) # fs) st =
          (raw s e # ps, st', Lookup (pid, s, e) # RawFetch s e # Write (pid, s, e) # evs)"
proof (cases "\<exists>q. st (pid, s, e) = Some (q, v)")
  case True
  then obtain q where q: "st (pid, s, e) = Some (q, v)" by blast
  obtain ps st' evs where r: "fetch_fragments raw pid v fs st = (ps, st', evs)"
    by (cases "fetch_fragments raw pid v fs st") auto
  from hit[OF q r fetch_fragments_hit[where st=st, OF q r]] show ?thesis .
next
  case False
  then have m: "\<forall>q. st (pid, s, e) \<noteq> Some (q, v)" by simp
  define st2 where "st2 = st((pid, s, e) \<mapsto> (raw s e, v))"
  obtain ps st' evs where r: "fetch_fragments raw pid v fs st2 = (ps, st', evs)"
    by (cases "fetch_fragments raw pid v fs st2") auto
  from miss[OF m st2_def r fetch_fragments_miss[where st=st, OF m st2_def r]] show ?thesis .
qed

text \<open>An entry under the current token is never overwritten.\<close>

lemma fetch_fragments_stable:
  "fetch_fragments raw pid v fs st = (ps, st', evs) \<Longrightarrow> st k = Some (p, v) \<Longrightarrow>
     st' k = Some (p, v)"
proof (induction fs arbitrary: st ps st' evs)
  case Nil
  then show ?case by simp
next
  case (Cons f fs)
  obtain s e where f: "f = (s, e)" by (cases f)
  show ?case
  proof (cases rule: fetch_fragments_step[of st pid s e v raw fs])
    case (hit q ps1 st1 evs1)
    with Cons.prems(1) f have "st' = st1" by simp
    with Cons.IH[OF hit(2) Cons.prems(2)] show ?thesis by simp
  next
    case (miss st2 ps1 st1 evs1)
    with Cons.prems(1) f have eq: "st' = st1" by simp
    from miss(1) Cons.prems(2) have "k \<noteq> (pid, s, e)" by auto
    with miss(2) Cons.prems(2) have "st2 k = Some (p, v)" by simp
    with Cons.IH[OF miss(3)] eq show ?thesis by simp
  qed
qed

text \<open>On the store a call leaves, the same call finds every fragment and changes nothing,
  whatever the retrieval function would return now.\<close>

lemma fetch_fragments_warm:
  "fetch_fragments raw pid v fs st = (ps, st', evs) \<Longrightarrow>
   fetch_fragments raw' pid v fs st' = (ps, st', map (\<lambda>f. Lookup (key_of pid f)) fs)"
proof (induction fs arbitrary: st ps st' evs)
  case Nil
  then show ?case by simp
next
  case (Cons f fs)
  obtain s e where f: "f = (s, e)" by (cases f)
  show ?case
  proof (cases rule: fetch_fragments_step[of st pid s e v raw fs])
    case (hit q ps1 st1 evs1)
    with Cons.prems(1) f have eq: "st' = st1" "ps = q # ps1" by simp_all
    from fetch_fragments_stable[OF hit(2) hit(1)] have "st1 (pid, s, e) = Some (q, v)" .
    from fetch_fragments_hit[where st=st1, OF this Cons.IH[OF hit(2)]] eq f
    show ?thesis by (simp add: key_of_def)
  next
    case (miss st2 ps1 st1 evs1)
    with Cons.prems(1) f have eq: "st' = st1" "ps = raw s e # ps1" by simp_all
    from miss(2) have "st2 (pid, s, e) = Some (raw s e, v)" by simp
    from fetch_fragments_stable[OF miss(3) this] have "st1 (pid, s, e) = Some (raw s e, v)" .
    from fetch_fragments_hit[where st=st1, OF this Cons.IH[OF miss(3)]] eq f
    show ?thesis by (simp add: key_of_def)
  qed
qed

lemma raw_fetches_lookups: "raw_fetches (map (\<lambda>f. Lookup (g f)) fs) = []"
  by (induction fs) (simp_all add: raw_fetches_def)

lemma fetch_warm:
  assumes "fetch raw pid v w start stop st = (out, st', evs)"
  shows "fetch raw' pid v w start stop st'
           = (out, st', map (\<lambda>f. Lookup (key_of pid f)) (fragments w start stop))"
proof -
  obtain ps st1 evs1 where r: "fetch_fragments raw pid v (fragments w start stop) st = (ps, st1, evs1)"
    by (cases "fetch_fragments raw pid v (fragments w start stop) st") auto
  with assms have out: "out = (if list_all (\<lambda>p. p = []) ps then Empty else Data (trim start stop (concat ps)))"
    and eq: "st' = st1"
    by (simp_all add: fetch_def)
  from fetch_fragments_warm[OF r, of raw'] out eq show ?thesis
    by (simp add: fetch_def)
qed

lemma raw_fetches_Cons:
  "raw_fetches (Lookup k # evs) = raw_fetches evs"
  "raw_fetches (Write k # evs) = raw_fetches evs"
  "raw_fetches (RawFetch s e # evs) = (s, e) # raw_fetches evs"
  "raw_fetches [] = []"
  by (simp_all add: raw_fetches_def)

lemma touched_Cons:
  "touched (Lookup k # evs) = k # touched evs"
  "touched (Write k # evs) = k # touched evs"
  "touched (RawFetch s e # evs) = touched evs"
  "touched [] = []"
  by (simp_all add: touched_def)

text \<open>A fragment whose entry is valid when the call starts is not fetched.\<close>

lemma fetch_fragments_reuse:
  "fetch_fragments raw pid v fs st = (ps, st', evs) \<Longrightarrow> st (pid, s, e) = Some (p, v) \<Longrightarrow>
     (s, e) \<notin> set (raw_fetches evs)"
proof (induction fs arbitrary: st ps st' evs)
  case Nil
  then show ?case by (simp add: raw_fetches_def)
next
  case (Cons f fs)
  obtain s1 e1 where f: "f = (s1, e1)" by (cases f)
  show ?case
  proof (cases rule: fetch_fragments_step[of st pid s1 e1 v raw fs])
    case (hit q ps1 st1 evs1)
    with Cons.prems(1) f have eq: "evs = Lookup (pid, s1, e1) # evs1" by simp
    from Cons.IH[OF hit(2) Cons.prems(2)] eq show ?thesis by (simp add: raw_fetches_Cons)
  next
    case (miss st2 ps1 st1 evs1)
    with Cons.prems(1) f have eq: "evs = Lookup (pid, s1, e1) # RawFetch s1 e1 # Write (pid, s1, e1) # evs1"
      by simp
    from miss(1) Cons.prems(2) have ne: "(s1, e1) \<noteq> (s, e)" by auto
    with miss(2) Cons.prems(2) have "st2 (pid, s, e) = Some (p, v)" by auto
    from Cons.IH[OF miss(3) this] eq ne show ?thesis by (auto simp add: raw_fetches_Cons)
  qed
qed

text \<open>The keys looked up or written are those of the fragments; every other key keeps
  its entry.\<close>

lemma fetch_fragments_touched:
  "fetch_fragments raw pid v fs st = (ps, st', evs) \<Longrightarrow> set (touched evs) = key_of pid ` set fs"
proof (induction fs arbitrary: st ps st' evs)
  case Nil
  then show ?case by (simp add: touched_def)
next
  case (Cons f fs)
  obtain s e where f: "f = (s, e)" by (cases f)
  show ?case
  proof (cases rule: fetch_fragments_step[of st pid s e v raw fs])
    case (hit q ps1 st1 evs1)
    with Cons.prems(1) f have eq: "evs = Lookup (pid, s, e) # evs1" by simp
    from Cons.IH[OF hit(2)] eq f show ?thesis by (simp add: touched_Cons key_of_def)
  next
    case (miss st2 ps1 st1 evs1)
    with Cons.prems(1) f have eq: "evs = Lookup (pid, s, e) # RawFetch s e # Write (pid, s, e) # evs1"
      by simp
    from Cons.IH[OF miss(3)] eq f show ?thesis by (simp add: touched_Cons key_of_def)
  qed
qed

lemma fetch_fragments_frame:
  "fetch_fragments raw pid v fs st = (ps, st', evs) \<Longrightarrow> k \<notin> key_of pid ` set fs \<Longrightarrow> st' k = st k"
proof (induction fs arbitrary: st ps st' evs)
  case Nil
  then show ?case by simp
next
  case (Cons f fs)
  obtain s e where f: "f = (s, e)" by (cases f)
  from Cons.prems(2) f have k: "k \<noteq> (pid, s, e)" "k \<notin> key_of pid ` set fs"
    by (auto simp: key_of_def)
  show ?case
  proof (cases rule: fetch_fragments_step[of st pid s e v raw fs])
    case (hit q ps1 st1 evs1)
    with Cons.prems(1) f have eq: "st' = st1" by simp
    from Cons.IH[OF hit(2) k(2)] eq show ?thesis by simp
  next
    case (miss st2 ps1 st1 evs1)
    with Cons.prems(1) f have eq: "st' = st1" by simp
    from Cons.IH[OF miss(3) k(2)] eq miss(2) k(1) show ?thesis by simp
  qed
qed

lemma cell_below:
  assumes "0 < (w::int)" and "k \<le> x div w"
  shows "k * w \<le> x"
proof -
  have "k * w \<le> (x div w) * w" using assms by (simp add: mult_right_mono)
  moreover have "x = (x div w) * w + x mod w" by simp
  moreover have "0 \<le> x mod w" using assms(1) by simp
  ultimately show ?thesis by linarith
qed

lemma cell_above:
  assumes "0 < (w::int)" and "x div w \<le> k"
  shows "x < (k + 1) * w"
proof -
  have "(x div w + 1) * w \<le> (k + 1) * w" using assms by (simp add: mult_right_mono)
  moreover have "x = (x div w) * w + x mod w" by simp
  moreover have "x mod w < w" using assms(1) by simp
  moreover have "(x div w + 1) * w = (x div w) * w + w" by (simp add: algebra_simps)
  ultimately show ?thesis by linarith
qed

lemma cell_self:
  assumes "0 < (w::int)"
  shows "((a + 1) * w - 1) div w = a"
proof (rule int_div_pos_eq[where r = "w - 1"])
  show "(a + 1) * w - 1 = w * a + (w - 1)" by (simp add: algebra_simps)
qed (use assms in simp_all)

lemma fragments_empty: "fragments w t t = []"
  by (simp add: fragments_def)

lemma fragments_cell:
  assumes "0 < w"
  shows "fragments w (a * w) ((a + 1) * w) = [(a * w, (a + 1) * w)]"
proof -
  have 1: "(a * w) div w = a" using assms by simp
  have 3: "\<not> (a + 1) * w \<le> a * w" using assms by (simp add: algebra_simps)
  show ?thesis unfolding fragments_def 1 cell_self[OF assms] using 3 by simp
qed

lemma fragments_intersect:
  assumes "0 < w" and "(s, e) \<in> set (fragments w start stop)"
  shows "s < stop \<and> start < e \<and> e = s + w"
proof -
  from assms(2) obtain k where k: "start div w \<le> k" "k \<le> (stop - 1) div w"
    and se: "s = k * w" "e = (k + 1) * w"
    by (auto simp: fragments_def split: if_splits)
  from cell_below[OF assms(1) k(2)] se have "s < stop" by simp
  moreover from cell_above[OF assms(1) k(1)] se have "start < e" by simp
  moreover from se have "e = s + w" by (simp add: algebra_simps)
  ultimately show ?thesis by blast
qed

lemma get_data_Inr:
  "get_data dl iv product start stop st = (Inr out, st', evs) \<Longrightarrow>
     \<exists>v. product_version iv product = Inr v \<and>
         fetch (dl product) product v (12 * 60 * 60) start stop st = (out, st', evs)"
  by (auto simp: get_data_def split: sum.splits prod.splits)

text \<open>
  C2. When a call of the cached fetch has returned, the same call on the store it left,
  under the same version token, returns the same output, leaves the store as it is and
  fetches nothing, whatever the retrieval function would return; and in any call a
  fragment stored under the current token is not fetched. The same for \<open>get_data\<close>
  over an unchanged inventory.
\<close>

theorem cached_fetch_second_call:
  "(fetch raw pid v w start stop st = (out, st', evs) \<longrightarrow>
      (\<exists>evs'. fetch raw' pid v w start stop st' = (out, st', evs') \<and> raw_fetches evs' = [])
      \<and> (\<forall>s e p. st (pid, s, e) = Some (p, v) \<longrightarrow> (s, e) \<notin> set (raw_fetches evs)))
   \<and> (get_data dl iv product start stop gst = (Inr gout, gst', gevs) \<longrightarrow>
      (\<exists>evs'. get_data dl' iv product start stop gst' = (Inr gout, gst', evs')
          \<and> raw_fetches evs' = []))"
proof (intro conjI impI allI)
  assume a: "fetch raw pid v w start stop st = (out, st', evs)"
  from fetch_warm[OF a, of raw']
  show "\<exists>evs'. fetch raw' pid v w start stop st' = (out, st', evs') \<and> raw_fetches evs' = []"
    by (simp add: raw_fetches_lookups)
  fix s e p
  assume v: "st (pid, s, e) = Some (p, v)"
  obtain ps where "fetch_fragments raw pid v (fragments w start stop) st = (ps, st', evs)"
    using a by (auto simp: fetch_def split: prod.splits)
  from fetch_fragments_reuse[OF this v] show "(s, e) \<notin> set (raw_fetches evs)" .
next
  assume "get_data dl iv product start stop gst = (Inr gout, gst', gevs)"
  from get_data_Inr[OF this] obtain v where v: "product_version iv product = Inr v"
    and f: "fetch (dl product) product v (12 * 60 * 60) start stop gst = (gout, gst', gevs)"
    by blast
  from fetch_warm[OF f, of "dl' product"] v
  show "\<exists>evs'. get_data dl' iv product start stop gst' = (Inr gout, gst', evs')
          \<and> raw_fetches evs' = []"
    by (simp add: get_data_def raw_fetches_lookups)
qed

text \<open>A cold call over two cells, for the grid width 12 and for \<open>get_data\<close>.\<close>

lemma cold: "fetch raw0 ''imf'' ''v1'' 12 0 24 no_entries
     = (Data [(0, 1), (11, 2), (12, 1), (23, 2)],
        no_entries((''imf'', 0, 12) \<mapsto> ([(0, 1), (11, 2)], ''v1''),
                   (''imf'', 12, 24) \<mapsto> ([(12, 1), (23, 2)], ''v1'')),
        [Lookup (''imf'', 0, 12), RawFetch 0 12, Write (''imf'', 0, 12),
         Lookup (''imf'', 12, 24), RawFetch 12 24, Write (''imf'', 12, 24)])"
  by (simp add: fetch_def fragments_def upto.simps fetch_fragments.simps raw0_def no_entries_def trim_def Let_def)

lemma cold_get_data:
  "get_data (\<lambda>p. raw0) inv0 ''imf'' 946684800 946771200 no_entries
     = (Inr (Data [(946684800, 1), (946727999, 2), (946728000, 1), (946771199, 2)]),
        no_entries((''imf'', 946684800, 946728000)
                      \<mapsto> ([(946684800, 1), (946727999, 2)], ''2021-03-04''),
                   (''imf'', 946728000, 946771200)
                      \<mapsto> ([(946728000, 1), (946771199, 2)], ''2021-03-04'')),
        [Lookup (''imf'', 946684800, 946728000), RawFetch 946684800 946728000,
         Write (''imf'', 946684800, 946728000),
         Lookup (''imf'', 946728000, 946771200), RawFetch 946728000 946771200,
         Write (''imf'', 946728000, 946771200)])"
  by (simp add: get_data_def product_version_def and_then_def getitem_def inv0_def
      fetch_def fragments_def upto.simps fetch_fragments.simps raw0_def no_entries_def
      trim_def Let_def)

theorem cached_fetch_second_call_witness:
  "(\<exists>evs'. fetch raw1 ''imf'' ''v1'' 12 0 24
              (no_entries((''imf'', 0, 12) \<mapsto> ([(0, 1), (11, 2)], ''v1''),
                          (''imf'', 12, 24) \<mapsto> ([(12, 1), (23, 2)], ''v1'')))
      = (Data [(0, 1), (11, 2), (12, 1), (23, 2)],
         no_entries((''imf'', 0, 12) \<mapsto> ([(0, 1), (11, 2)], ''v1''),
                    (''imf'', 12, 24) \<mapsto> ([(12, 1), (23, 2)], ''v1'')), evs')
      \<and> raw_fetches evs' = [])
   \<and> (\<exists>evs'. get_data (\<lambda>p. raw1) inv0 ''imf'' 946684800 946771200
              (no_entries((''imf'', 946684800, 946728000)
                      \<mapsto> ([(946684800, 1), (946727999, 2)], ''2021-03-04''),
                   (''imf'', 946728000, 946771200)
                      \<mapsto> ([(946728000, 1), (946771199, 2)], ''2021-03-04'')))
      = (Inr (Data [(946684800, 1), (946727999, 2), (946728000, 1), (946771199, 2)]),
         no_entries((''imf'', 946684800, 946728000)
                      \<mapsto> ([(946684800, 1), (946727999, 2)], ''2021-03-04''),
                   (''imf'', 946728000, 946771200)
                      \<mapsto> ([(946728000, 1), (946771199, 2)], ''2021-03-04'')), evs')
      \<and> raw_fetches evs' = [])"
proof -
  from cached_fetch_second_call[where raw = raw0 and raw' = raw1 and pid = "''imf''"
      and v = "''v1''" and w = 12 and start = 0 and stop = 24 and st = no_entries] cold
  have 1: "\<exists>evs'. fetch raw1 ''imf'' ''v1'' 12 0 24
              (no_entries((''imf'', 0, 12) \<mapsto> ([(0, 1), (11, 2)], ''v1''),
                          (''imf'', 12, 24) \<mapsto> ([(12, 1), (23, 2)], ''v1'')))
      = (Data [(0, 1), (11, 2), (12, 1), (23, 2)],
         no_entries((''imf'', 0, 12) \<mapsto> ([(0, 1), (11, 2)], ''v1''),
                    (''imf'', 12, 24) \<mapsto> ([(12, 1), (23, 2)], ''v1'')), evs')
      \<and> raw_fetches evs' = []"
    by blast
  let ?warm = "no_entries((''imf'', 946684800, 946728000)
                      \<mapsto> ([(946684800, 1), (946727999, 2)], ''2021-03-04''),
                   (''imf'', 946728000, 946771200)
                      \<mapsto> ([(946728000, 1), (946771199, 2)], ''2021-03-04''))"
  let ?res = "Data [(946684800, 1), (946727999, 2), (946728000, 1), (946771199, 2 :: int)]"
  from cached_fetch_second_call[where dl = "\<lambda>p. raw0" and dl' = "\<lambda>p. raw1"
      and iv = inv0 and product = "''imf''" and start = 946684800 and stop = 946771200
      and gst = no_entries and gout = ?res and gst' = ?warm, THEN conjunct2, rule_format,
      OF cold_get_data]
  have 2: "\<exists>evs'. get_data (\<lambda>p. raw1) inv0 ''imf'' 946684800 946771200 ?warm
      = (Inr ?res, ?warm, evs') \<and> raw_fetches evs' = []" .
  from 1 2 show ?thesis by blast
qed

text \<open>
  C7. Two different cells A and B of one product are stored under version \<open>v1\<close>. A
  fetch of exactly A's range under another token looks A up, fetches it and overwrites
  its entry under the new token; B's entry is as it was. In any call the keys looked up
  or written belong to cells that meet the requested range, and every other key keeps
  its entry.
\<close>

theorem partial_invalidation:
  assumes "0 < w" and "a \<noteq> b"
    and "st (pid, a * w, (a + 1) * w) = Some (pA, v1)"
    and "st (pid, b * w, (b + 1) * w) = Some (pB, v1)"
    and "v2 \<noteq> v1"
  shows "fetch raw pid v2 w (a * w) ((a + 1) * w) st
     = ((if raw (a * w) ((a + 1) * w) = [] then Empty
         else Data (trim (a * w) ((a + 1) * w) (raw (a * w) ((a + 1) * w)))),
        st((pid, a * w, (a + 1) * w) \<mapsto> (raw (a * w) ((a + 1) * w), v2)),
        [Lookup (pid, a * w, (a + 1) * w), RawFetch (a * w) ((a + 1) * w),
         Write (pid, a * w, (a + 1) * w)])
   \<and> (st((pid, a * w, (a + 1) * w) \<mapsto> (raw (a * w) ((a + 1) * w), v2))) (pid, b * w, (b + 1) * w)
       = Some (pB, v1)
   \<and> (\<forall>start stop res st' evs. fetch raw pid v2 w start stop st = (res, st', evs) \<longrightarrow>
         (\<forall>k\<in>set (touched evs). \<exists>s e. k = (pid, s, e) \<and> s < stop \<and> start < e)
         \<and> (\<forall>k. k \<notin> set (touched evs) \<longrightarrow> st' k = st k))"
proof (intro conjI allI impI)
  have m: "\<forall>q. st (pid, a * w, (a + 1) * w) \<noteq> Some (q, v2)" using assms(3,5) by simp
  show "fetch raw pid v2 w (a * w) ((a + 1) * w) st
     = ((if raw (a * w) ((a + 1) * w) = [] then Empty
         else Data (trim (a * w) ((a + 1) * w) (raw (a * w) ((a + 1) * w)))),
        st((pid, a * w, (a + 1) * w) \<mapsto> (raw (a * w) ((a + 1) * w), v2)),
        [Lookup (pid, a * w, (a + 1) * w), RawFetch (a * w) ((a + 1) * w),
         Write (pid, a * w, (a + 1) * w)])"
    unfolding fetch_def fragments_cell[OF assms(1)]
    by (subst fetch_fragments_miss[where st = st, OF m refl]) auto
  have "a * w \<noteq> b * w" using assms(1,2) by simp
  then show "(st((pid, a * w, (a + 1) * w) \<mapsto> (raw (a * w) ((a + 1) * w), v2))) (pid, b * w, (b + 1) * w)
       = Some (pB, v1)"
    using assms(4) by simp
next
  fix start stop res st' evs
  assume f: "fetch raw pid v2 w start stop st = (res, st', evs)"
  then obtain ps where r: "fetch_fragments raw pid v2 (fragments w start stop) st = (ps, st', evs)"
    by (auto simp: fetch_def split: prod.splits)
  note t = fetch_fragments_touched[OF r]
  show "\<forall>k\<in>set (touched evs). \<exists>s e. k = (pid, s, e) \<and> s < stop \<and> start < e"
  proof
    fix k assume "k \<in> set (touched evs)"
    with t obtain s e where "(s, e) \<in> set (fragments w start stop)" "k = (pid, s, e)"
      by (auto simp: key_of_def)
    with fragments_intersect[OF assms(1), of s e start stop] show "\<exists>s e. k = (pid, s, e) \<and> s < stop \<and> start < e"
      by blast
  qed
  fix k assume "k \<notin> set (touched evs)"
  with t fetch_fragments_frame[OF r, of k] show "st' k = st k" by simp
qed

theorem partial_invalidation_witness:
  "fetch raw1 ''imf'' ''v2'' 12 0 12 two_cells
     = (Data [(0, 7)], two_cells((''imf'', 0, 12) \<mapsto> ([(0, 7)], ''v2'')),
        [Lookup (''imf'', 0, 12), RawFetch 0 12, Write (''imf'', 0, 12)])
   \<and> (two_cells((''imf'', 0, 12) \<mapsto> ([(0, 7)], ''v2''))) (''imf'', 12, 24)
       = Some ([(15, 150)], ''v1'')"
proof -
  have h: "(0::int) < 12" "(0::int) \<noteq> 1"
    "two_cells (''imf'', 0 * 12, (0 + 1) * 12) = Some ([(3, 30)], ''v1'')"
    "two_cells (''imf'', 1 * 12, (1 + 1) * 12) = Some ([(15, 150)], ''v1'')"
    "''v2'' \<noteq> ''v1''"
    by (simp_all add: two_cells_def)
  from partial_invalidation[where raw = raw1, OF h] show ?thesis
    by (simp add: raw1_def trim_def)
qed

section \<open>The REST flows\<close>

lemma get_parameter_up_to_three:
  "get_parameter nw srv kwargs lg
     = up_to_three (get_parameter_turn nw srv (base_url srv ''/php/rest/getParameter.php?'' kwargs)) lg"
  by (simp add: get_parameter_def up_to_three_def numeral_3_eq_3
      split: prod.splits sum.splits turn.splits)

lemma get_timetable_up_to_three:
  "get_timetable nw srv kwargs lg
     = up_to_three (get_timetable_turn nw srv (base_url srv ''/php/rest/getTimeTable.php?'' kwargs)) lg"
  by (simp add: get_timetable_def up_to_three_def numeral_3_eq_3
      split: prod.splits sum.splits turn.splits)

lemma get_timetable_list_up_to_three:
  "get_timetable_list nw srv kwargs lg
     = up_to_three (get_timetable_list_turn nw srv (base_url srv ''/php/rest/getTimeTablesList.php?'' kwargs)) lg"
  by (simp add: get_timetable_list_def up_to_three_def numeral_3_eq_3
      split: prod.splits sum.splits turn.splits)

lemma get_parameter_turn_sent:
  "get_parameter_turn nw srv burl lg = (r, lg') \<Longrightarrow> length lg < length lg' \<and> length lg' \<le> length lg + 2"
  by (auto simp: get_parameter_turn_def get_token_def requests_get_def Let_def
      split: prod.splits sum.splits option.splits bool.splits)

lemma get_timetable_turn_sent:
  "get_timetable_turn nw srv burl lg = (r, lg') \<Longrightarrow> length lg < length lg' \<and> length lg' \<le> length lg + 2"
  by (auto simp: get_timetable_turn_def get_token_def requests_get_def Let_def
      split: prod.splits sum.splits option.splits bool.splits)

lemma get_timetable_list_turn_sent:
  "get_timetable_list_turn nw srv burl lg = (r, lg') \<Longrightarrow> length lg < length lg' \<and> length lg' \<le> length lg + 3"
  by (auto simp: get_timetable_list_turn_def get_token_def requests_get_def Let_def
      split: prod.splits sum.splits option.splits bool.splits)

lemma up_to_three_sent:
  assumes "\<And>l r l'. attempt l = (r, l') \<Longrightarrow> length l' \<le> length l + n"
    and "up_to_three attempt lg = (r, lg')"
  shows "length lg' \<le> length lg + 3 * n"
proof -
  obtain r1 l1 where 1: "attempt lg = (r1, l1)" by (cases "attempt lg")
  obtain r2 l2 where 2: "attempt l1 = (r2, l2)" by (cases "attempt l1")
  obtain r3 l3 where 3: "attempt l2 = (r3, l3)" by (cases "attempt l2")
  from assms(1)[OF 1] assms(1)[OF 2] assms(1)[OF 3]
  have "length l1 \<le> length lg + n" "length l2 \<le> length lg + 2 * n" "length l3 \<le> length lg + 3 * n"
    by simp_all
  moreover from assms(2) 1 2 3 have "lg' = l1 \<or> lg' = l2 \<or> lg' = l3"
    by (auto simp: up_to_three_def split: sum.splits turn.splits)
  ultimately show ?thesis by auto
qed

lemma get_parameter_sent:
  "length (snd (get_parameter nw srv kwargs lg)) \<le> length lg + 3 * 2"
proof -
  let ?T = "get_parameter_turn nw srv (base_url srv ''/php/rest/getParameter.php?'' kwargs)"
  obtain r lg' where e: "up_to_three ?T lg = (r, lg')" by (cases "up_to_three ?T lg")
  have "length lg' \<le> length lg + 3 * 2"
  proof (rule up_to_three_sent[OF _ e])
    fix l r l' assume "?T l = (r, l')"
    from get_parameter_turn_sent[OF this] show "length l' \<le> length l + 2" by simp
  qed
  with e show ?thesis by (simp add: get_parameter_up_to_three)
qed

lemma get_timetable_sent:
  "length (snd (get_timetable nw srv kwargs lg)) \<le> length lg + 3 * 2"
proof -
  let ?T = "get_timetable_turn nw srv (base_url srv ''/php/rest/getTimeTable.php?'' kwargs)"
  obtain r lg' where e: "up_to_three ?T lg = (r, lg')" by (cases "up_to_three ?T lg")
  have "length lg' \<le> length lg + 3 * 2"
  proof (rule up_to_three_sent[OF _ e])
    fix l r l' assume "?T l = (r, l')"
    from get_timetable_turn_sent[OF this] show "length l' \<le> length l + 2" by simp
  qed
  with e show ?thesis by (simp add: get_timetable_up_to_three)
qed

lemma get_timetable_list_sent3:
  "length (snd (get_timetable_list nw srv kwargs lg)) \<le> length lg + 3 * 3"
proof -
  let ?T = "get_timetable_list_turn nw srv (base_url srv ''/php/rest/getTimeTablesList.php?'' kwargs)"
  obtain r lg' where e: "up_to_three ?T lg = (r, lg')" by (cases "up_to_three ?T lg")
  have "length lg' \<le> length lg + 3 * 3"
  proof (rule up_to_three_sent[OF _ e])
    fix l r l' assume "?T l = (r, l')"
    from get_timetable_list_turn_sent[OF this] show "length l' \<le> length l + 3" by simp
  qed
  with e show ?thesis by (simp add: get_timetable_list_up_to_three)
qed

lemma is_success_cases:
  "is_success (JObj kv)
     = Inr (map_of kv ''success'' = Some (JBool True) \<and> map_of kv ''dataFileURLs'' \<noteq> None)"
  "is_success (JArr xs) = (if JStr ''success'' \<in> set xs then Inl TypeError else Inr False)"
  "is_success (JStr s) = (if str_contains s ''success'' then Inl TypeError else Inr False)"
  "is_success JNull = Inl TypeError"
  "is_success (JBool b) = Inl TypeError"
  "is_success (JNum n) = Inl TypeError"
proof -
  show "is_success (JObj kv)
     = Inr (map_of kv ''success'' = Some (JBool True) \<and> map_of kv ''dataFileURLs'' \<noteq> None)"
  proof (cases "map_of kv ''success''")
    case None
    then have "''success'' \<notin> fst ` set kv" by (simp add: map_of_eq_None_iff)
    with None show ?thesis by (simp add: is_success_def json_contains_def)
  next
    case (Some v)
    then have "''success'' \<in> fst ` set kv" by (auto dest: map_of_SomeD intro: rev_image_eqI)
    with Some show ?thesis
      by (simp add: is_success_def json_contains_def json_getitem_def map_of_eq_None_iff)
  qed
qed (simp_all add: is_success_def json_contains_def json_getitem_def)

lemma get_parameter_turn_cases:
  "get_parameter_turn nw srv burl l =
    (case nw (length l) (plain (srv @ ''/php/rest/auth.php?'')) of
       Inl e \<Rightarrow> (Inl e, l @ [plain (srv @ ''/php/rest/auth.php?'')])
     | Inr rt \<Rightarrow>
       (case nw (length l + 1) (plain (burl @ ''token='' @ resp_text rt)) of
          Inl e \<Rightarrow> (Inl e, l @ [plain (srv @ ''/php/rest/auth.php?''),
                              plain (burl @ ''token='' @ resp_text rt)])
        | Inr r \<Rightarrow>
           ((case resp_json r of
               None \<Rightarrow> Inl JSONDecodeError
             | Some js \<Rightarrow> (case is_success js of
                  Inl e \<Rightarrow> Inl e
                | Inr True \<Rightarrow> (case json_getitem js ''dataFileURLs'' of
                     Inl e \<Rightarrow> Inl e | Inr v \<Rightarrow> Inr (Return v))
                | Inr False \<Rightarrow> Inr Continue)),
            l @ [plain (srv @ ''/php/rest/auth.php?''),
                 plain (burl @ ''token='' @ resp_text rt)])))"
  by (simp add: get_parameter_turn_def get_token_def requests_get_plain
      split: sum.splits option.splits bool.splits)

lemma get_timetable_turn_cases:
  "get_timetable_turn nw srv burl l =
    (case nw (length l) (plain (srv @ ''/php/rest/auth.php?'')) of
       Inl e \<Rightarrow> (Inl e, l @ [plain (srv @ ''/php/rest/auth.php?'')])
     | Inr rt \<Rightarrow>
       (case nw (length l + 1) (plain (burl @ ''token='' @ resp_text rt)) of
          Inl e \<Rightarrow> (Inl e, l @ [plain (srv @ ''/php/rest/auth.php?''),
                              plain (burl @ ''token='' @ resp_text rt)])
        | Inr r \<Rightarrow> (Inr (Return (strip (resp_text r))),
                     l @ [plain (srv @ ''/php/rest/auth.php?''),
                          plain (burl @ ''token='' @ resp_text rt)])))"
  by (simp add: get_timetable_turn_def get_token_def requests_get_plain
      split: sum.splits option.splits bool.splits)

lemma get_timetable_list_turn_cases:
  "get_timetable_list_turn nw srv burl l =
    (case nw (length l) (plain (srv @ ''/php/rest/auth.php?'')) of
       Inl e \<Rightarrow> (Inl e, l @ [plain (srv @ ''/php/rest/auth.php?'')])
     | Inr rt \<Rightarrow>
       (case nw (length l + 1) (plain (burl @ ''token='' @ resp_text rt)) of
          Inl e \<Rightarrow> (Inl e, l @ [plain (srv @ ''/php/rest/auth.php?''),
                              plain (burl @ ''token='' @ resp_text rt)])
        | Inr r \<Rightarrow>
          (case nw (length l + 2) (plain (strip (resp_text r))) of
             Inl e \<Rightarrow> (Inl e, l @ [plain (srv @ ''/php/rest/auth.php?''),
                              plain (burl @ ''token='' @ resp_text rt),
                              plain (strip (resp_text r))])
           | Inr r2 \<Rightarrow> (Inr (Return (strip (resp_text r2))),
                     l @ [plain (srv @ ''/php/rest/auth.php?''),
                          plain (burl @ ''token='' @ resp_text rt),
                          plain (strip (resp_text r))]))))"
  by (simp add: get_timetable_list_turn_def get_token_def requests_get_plain
      split: sum.splits option.splits bool.splits)

text \<open>
  C4, amended. Each of the three flows is a sequence of up to three attempts in which
  an exception of an attempt leaves the operation, the first attempt that returns ends
  it with that result, and three attempts that end without one give \<open>None\<close>; so it
  sends at most three times the requests of one attempt. In an attempt an exception
  of the transport leaves the attempt at the request that raised. An attempt of
  \<open>get_parameter\<close> whose two requests are answered raises \<open>JSONDecodeError\<close> if the
  reply is no JSON document and \<open>TypeError\<close> if it decodes to null, a boolean, a
  number, a list that has the string \<open>success\<close> or a string that contains it; it
  returns \<open>dataFileURLs\<close> if the reply is an object with \<open>success\<close> true and that
  entry, and ends without a result for any other object, list or string. An attempt
  of \<open>get_timetable\<close> or \<open>get_timetable_list\<close> whose requests are answered
  returns the stripped text of the last reply.
\<close>

theorem rest_flows_attempts:
  "get_parameter nw srv kwargs lg
     = up_to_three (get_parameter_turn nw srv
         (base_url srv ''/php/rest/getParameter.php?'' kwargs)) lg
   \<and> get_timetable nw srv kwargs lg
     = up_to_three (get_timetable_turn nw srv
         (base_url srv ''/php/rest/getTimeTable.php?'' kwargs)) lg
   \<and> get_timetable_list nw srv kwargs lg
     = up_to_three (get_timetable_list_turn nw srv
         (base_url srv ''/php/rest/getTimeTablesList.php?'' kwargs)) lg
   \<and> length (snd (get_parameter nw srv kwargs lg)) \<le> length lg + 3 * 2
   \<and> length (snd (get_timetable nw srv kwargs lg)) \<le> length lg + 3 * 2
   \<and> length (snd (get_timetable_list nw srv kwargs lg)) \<le> length lg + 3 * 3
   \<and> (\<forall>burl l.
      (\<forall>e. nw (length l) (plain (srv @ ''/php/rest/auth.php?'')) = Inl e \<longrightarrow>
         get_parameter_turn nw srv burl l = (Inl e, l @ [plain (srv @ ''/php/rest/auth.php?'')]))
    \<and> (\<forall>rt. nw (length l) (plain (srv @ ''/php/rest/auth.php?'')) = Inr rt \<longrightarrow>
        (\<forall>e. nw (length l + 1) (plain (burl @ ''token='' @ resp_text rt)) = Inl e \<longrightarrow>
           get_parameter_turn nw srv burl l = (Inl e, l @ [plain (srv @ ''/php/rest/auth.php?''), plain (burl @ ''token='' @ resp_text rt)]))
      \<and> (\<forall>r. nw (length l + 1) (plain (burl @ ''token='' @ resp_text rt)) = Inr r \<longrightarrow>
            (resp_json r = None \<longrightarrow> get_parameter_turn nw srv burl l = (Inl JSONDecodeError, l @ [plain (srv @ ''/php/rest/auth.php?''), plain (burl @ ''token='' @ resp_text rt)]))
          \<and> (\<forall>kv v. resp_json r = Some (JObj kv) \<and> map_of kv ''success'' = Some (JBool True)
                \<and> map_of kv ''dataFileURLs'' = Some v
              \<longrightarrow> get_parameter_turn nw srv burl l = (Inr (Return v), l @ [plain (srv @ ''/php/rest/auth.php?''), plain (burl @ ''token='' @ resp_text rt)]))
          \<and> (\<forall>kv. resp_json r = Some (JObj kv)
                \<and> (map_of kv ''success'' \<noteq> Some (JBool True) \<or> map_of kv ''dataFileURLs'' = None)
              \<longrightarrow> get_parameter_turn nw srv burl l = (Inr Continue, l @ [plain (srv @ ''/php/rest/auth.php?''), plain (burl @ ''token='' @ resp_text rt)]))
          \<and> (\<forall>xs. resp_json r = Some (JArr xs) \<longrightarrow>
              get_parameter_turn nw srv burl l = ((if JStr ''success'' \<in> set xs then Inl TypeError else Inr Continue), l @ [plain (srv @ ''/php/rest/auth.php?''), plain (burl @ ''token='' @ resp_text rt)]))
          \<and> (\<forall>s. resp_json r = Some (JStr s) \<longrightarrow>
              get_parameter_turn nw srv burl l = ((if str_contains s ''success'' then Inl TypeError else Inr Continue), l @ [plain (srv @ ''/php/rest/auth.php?''), plain (burl @ ''token='' @ resp_text rt)]))
          \<and> (resp_json r = Some JNull \<or> (\<exists>b. resp_json r = Some (JBool b)) \<or> (\<exists>n. resp_json r = Some (JNum n))
              \<longrightarrow> get_parameter_turn nw srv burl l = (Inl TypeError, l @ [plain (srv @ ''/php/rest/auth.php?''), plain (burl @ ''token='' @ resp_text rt)])))))
   \<and> (\<forall>burl l.
      (\<forall>e. nw (length l) (plain (srv @ ''/php/rest/auth.php?'')) = Inl e \<longrightarrow>
         get_timetable_turn nw srv burl l = (Inl e, l @ [plain (srv @ ''/php/rest/auth.php?'')]))
    \<and> (\<forall>rt. nw (length l) (plain (srv @ ''/php/rest/auth.php?'')) = Inr rt \<longrightarrow>
        (\<forall>e. nw (length l + 1) (plain (burl @ ''token='' @ resp_text rt)) = Inl e \<longrightarrow>
           get_timetable_turn nw srv burl l = (Inl e, l @ [plain (srv @ ''/php/rest/auth.php?''), plain (burl @ ''token='' @ resp_text rt)]))
      \<and> (\<forall>r. nw (length l + 1) (plain (burl @ ''token='' @ resp_text rt)) = Inr r \<longrightarrow>
            get_timetable_turn nw srv burl l = (Inr (Return (strip (resp_text r))), l @ [plain (srv @ ''/php/rest/auth.php?''), plain (burl @ ''token='' @ resp_text rt)]))))
   \<and> (\<forall>burl l.
      (\<forall>e. nw (length l) (plain (srv @ ''/php/rest/auth.php?'')) = Inl e \<longrightarrow>
         get_timetable_list_turn nw srv burl l = (Inl e, l @ [plain (srv @ ''/php/rest/auth.php?'')]))
    \<and> (\<forall>rt. nw (length l) (plain (srv @ ''/php/rest/auth.php?'')) = Inr rt \<longrightarrow>
        (\<forall>e. nw (length l + 1) (plain (burl @ ''token='' @ resp_text rt)) = Inl e \<longrightarrow>
           get_timetable_list_turn nw srv burl l = (Inl e, l @ [plain (srv @ ''/php/rest/auth.php?''), plain (burl @ ''token='' @ resp_text rt)]))
      \<and> (\<forall>r. nw (length l + 1) (plain (burl @ ''token='' @ resp_text rt)) = Inr r \<longrightarrow>
            (\<forall>e. nw (length l + 2) (plain (strip (resp_text r))) = Inl e \<longrightarrow>
               get_timetable_list_turn nw srv burl l = (Inl e, l @ [plain (srv @ ''/php/rest/auth.php?''), plain (burl @ ''token='' @ resp_text rt), plain (strip (resp_text r))]))
          \<and> (\<forall>r2. nw (length l + 2) (plain (strip (resp_text r))) = Inr r2 \<longrightarrow>
               get_timetable_list_turn nw srv burl l = (Inr (Return (strip (resp_text r2))), l @ [plain (srv @ ''/php/rest/auth.php?''), plain (burl @ ''token='' @ resp_text rt), plain (strip (resp_text r))])))))"
  by (intro conjI get_parameter_up_to_three get_timetable_up_to_three
      get_timetable_list_up_to_three get_parameter_sent get_timetable_sent
      get_timetable_list_sent3)
    (auto simp: get_parameter_turn_cases get_timetable_turn_cases
      get_timetable_list_turn_cases is_success_cases json_getitem_def)

text \<open>
  C4, as stated, at three failing attempts: the first two replies to the parameter
  request are JSON objects with \<open>success\<close> false, the third is no JSON document. All
  three attempts have failed and six requests were sent; the claim has the operation
  return \<open>None\<close>, the code raises \<open>JSONDecodeError\<close>.
\<close>

theorem get_parameter_third_attempt_raises:
  "fst (get_parameter
      (script [token_reply, refused_reply, token_reply, refused_reply, token_reply, page_reply])
      ''http://amda'' [(''parameterID'', ''imf'')] []) = Inl JSONDecodeError
   \<and> length (snd (get_parameter
      (script [token_reply, refused_reply, token_reply, refused_reply, token_reply, page_reply])
      ''http://amda'' [(''parameterID'', ''imf'')] [])) = 6"
  by (simp add: get_parameter_def get_parameter_turn_def get_token_def requests_get_def
      is_success_def json_contains_def json_getitem_def base_url_def numeral_3_eq_3
      script_def token_reply_def refused_reply_def page_reply_def Let_def)

theorem rest_flows_attempts_witness:
  "get_parameter
      (script [token_reply, refused_reply, token_reply, refused_reply, token_reply, refused_reply])
      ''http://amda'' [(''parameterID'', ''imf'')] []
     = (Inr None,
        [plain ''http://amda/php/rest/auth.php?'',
         plain ''http://amda/php/rest/getParameter.php?parameterID=imf&token=T0'',
         plain ''http://amda/php/rest/auth.php?'',
         plain ''http://amda/php/rest/getParameter.php?parameterID=imf&token=T0'',
         plain ''http://amda/php/rest/auth.php?'',
         plain ''http://amda/php/rest/getParameter.php?parameterID=imf&token=T0''])
   \<and> get_parameter (script [token_reply, refused_reply, token_reply, files_reply])
      ''http://amda'' [(''parameterID'', ''imf'')] []
     = (Inr (Some (JStr ''http://amda/f.csv'')),
        [plain ''http://amda/php/rest/auth.php?'',
         plain ''http://amda/php/rest/getParameter.php?parameterID=imf&token=T0'',
         plain ''http://amda/php/rest/auth.php?'',
         plain ''http://amda/php/rest/getParameter.php?parameterID=imf&token=T0''])
   \<and> get_parameter (script [token_reply, refused_reply, token_reply])
      ''http://amda'' [(''parameterID'', ''imf'')] []
     = (Inl ConnectionError,
        [plain ''http://amda/php/rest/auth.php?'',
         plain ''http://amda/php/rest/getParameter.php?parameterID=imf&token=T0'',
         plain ''http://amda/php/rest/auth.php?'',
         plain ''http://amda/php/rest/getParameter.php?parameterID=imf&token=T0''])
   \<and> get_timetable (script [token_reply, page_reply]) ''http://amda'' [(''ttID'', ''tt_0'')] []
     = (Inr (Some ''<html/>''),
        [plain ''http://amda/php/rest/auth.php?'',
         plain ''http://amda/php/rest/getTimeTable.php?ttID=tt_0&token=T0''])
   \<and> get_timetable_list no_network ''http://amda'' [] []
     = (Inl ConnectionError, [plain ''http://amda/php/rest/auth.php?''])"
proof -
  note ev = up_to_three_def get_parameter_turn_def get_timetable_turn_def
      get_timetable_list_turn_def get_token_def
      requests_get_def is_success_def json_contains_def json_getitem_def base_url_def
      strip_def isspace_def plain_def no_network_def
      script_def token_reply_def refused_reply_def page_reply_def files_reply_def Let_def
  from rest_flows_attempts[of "script [token_reply, refused_reply, token_reply, refused_reply,
      token_reply, refused_reply]" "''http://amda''" "[(''parameterID'', ''imf'')]" "[]",
      THEN conjunct1]
  have 1: "get_parameter
      (script [token_reply, refused_reply, token_reply, refused_reply, token_reply, refused_reply])
      ''http://amda'' [(''parameterID'', ''imf'')] []
     = (Inr None,
        [plain ''http://amda/php/rest/auth.php?'',
         plain ''http://amda/php/rest/getParameter.php?parameterID=imf&token=T0'',
         plain ''http://amda/php/rest/auth.php?'',
         plain ''http://amda/php/rest/getParameter.php?parameterID=imf&token=T0'',
         plain ''http://amda/php/rest/auth.php?'',
         plain ''http://amda/php/rest/getParameter.php?parameterID=imf&token=T0''])"
    by (simp add: ev)
  from rest_flows_attempts[of "script [token_reply, refused_reply, token_reply, files_reply]"
      "''http://amda''" "[(''parameterID'', ''imf'')]" "[]", THEN conjunct1]
  have 2: "get_parameter (script [token_reply, refused_reply, token_reply, files_reply])
      ''http://amda'' [(''parameterID'', ''imf'')] []
     = (Inr (Some (JStr ''http://amda/f.csv'')),
        [plain ''http://amda/php/rest/auth.php?'',
         plain ''http://amda/php/rest/getParameter.php?parameterID=imf&token=T0'',
         plain ''http://amda/php/rest/auth.php?'',
         plain ''http://amda/php/rest/getParameter.php?parameterID=imf&token=T0''])"
    by (simp add: ev)
  from rest_flows_attempts[of "script [token_reply, refused_reply, token_reply]"
      "''http://amda''" "[(''parameterID'', ''imf'')]" "[]", THEN conjunct1]
  have 3: "get_parameter (script [token_reply, refused_reply, token_reply])
      ''http://amda'' [(''parameterID'', ''imf'')] []
     = (Inl ConnectionError,
        [plain ''http://amda/php/rest/auth.php?'',
         plain ''http://amda/php/rest/getParameter.php?parameterID=imf&token=T0'',
         plain ''http://amda/php/rest/auth.php?'',
         plain ''http://amda/php/rest/getParameter.php?parameterID=imf&token=T0''])"
    by (simp add: ev)
  from rest_flows_attempts[of "script [token_reply, page_reply]"
      "''http://amda''" "[(''ttID'', ''tt_0'')]" "[]", THEN conjunct2, THEN conjunct1]
  have 4: "get_timetable (script [token_reply, page_reply]) ''http://amda'' [(''ttID'', ''tt_0'')] []
     = (Inr (Some ''<html/>''),
        [plain ''http://amda/php/rest/auth.php?'',
         plain ''http://amda/php/rest/getTimeTable.php?ttID=tt_0&token=T0''])"
    by (simp add: ev)
  from rest_flows_attempts[of no_network "''http://amda''" "[]" "[]",
      THEN conjunct2, THEN conjunct2, THEN conjunct1]
  have 5: "get_timetable_list no_network ''http://amda'' [] []
     = (Inl ConnectionError, [plain ''http://amda/php/rest/auth.php?''])"
    by (simp add: ev)
  from 1 2 3 4 5 show ?thesis by (intro conjI)
qed

end
